theory Spec2Isabelle
  imports
    Complex_Main
    "HOL-Library.Sublist"
    "HOL-Library.Char_ord"
    "HOL-Library.List_Lexorder"
    "HOL-Library.Product_Lexorder"
    "HOL-Library.Multiset"
begin

section \<open>Python strings\<close>

text \<open>
  Python strings are modelled as \<^typ>\<open>string\<close>. Characters are 8-bit, so the model
  covers ASCII text; \<open>str.lower\<close> is the ASCII lowering.
\<close>

definition lower_char :: "char \<Rightarrow> char" where
  "lower_char c =
     (let n = (of_char c :: nat) in if 65 \<le> n \<and> n \<le> 90 then char_of (n + 32) else c)"

definition lower :: "string \<Rightarrow> string" where
  \<comment> \<open>\<open>s.lower()\<close>\<close>
  "lower s = map lower_char s"

fun startswith :: "string \<Rightarrow> string \<Rightarrow> bool" where
  \<comment> \<open>\<open>s.startswith(p)\<close>, written \<open>startswith p s\<close>\<close>
  "startswith [] s = True"
| "startswith (p # ps) [] = False"
| "startswith (p # ps) (c # cs) = (p = c \<and> startswith ps cs)"

definition endswith :: "string \<Rightarrow> string \<Rightarrow> bool" where
  \<comment> \<open>\<open>s.endswith(p)\<close>, written \<open>endswith p s\<close>\<close>
  "endswith p s = startswith (rev p) (rev s)"

fun str_in :: "string \<Rightarrow> string \<Rightarrow> bool" where
  \<comment> \<open>\<open>p in s\<close> for strings: \<open>p\<close> occurs in \<open>s\<close> as a contiguous substring\<close>
  "str_in p [] = (p = [])"
| "str_in p (c # cs) = (startswith p (c # cs) \<or> str_in p cs)"

definition removeprefix :: "string \<Rightarrow> string \<Rightarrow> string" where
  \<comment> \<open>\<open>s.removeprefix(p)\<close>, written \<open>removeprefix p s\<close>\<close>
  "removeprefix p s = (if startswith p s then drop (length p) s else s)"

definition rstrip :: "char \<Rightarrow> string \<Rightarrow> string" where
  \<comment> \<open>\<open>s.rstrip(c)\<close> for a one-character argument\<close>
  "rstrip c s = rev (dropWhile (\<lambda>x. x = c) (rev s))"

definition split_first :: "char \<Rightarrow> string \<Rightarrow> string" where
  \<comment> \<open>\<open>s.split(c)[0]\<close> and \<open>s.split(c, 1)[0]\<close>\<close>
  "split_first c s = takeWhile (\<lambda>x. x \<noteq> c) s"

definition split_last :: "char \<Rightarrow> string \<Rightarrow> string" where
  \<comment> \<open>\<open>s.split(c)[-1]\<close>\<close>
  "split_last c s = rev (takeWhile (\<lambda>x. x \<noteq> c) (rev s))"

definition split_once :: "char \<Rightarrow> string \<Rightarrow> (string \<times> string) option" where
  \<comment> \<open>\<open>a, b = s.split(c, 1)\<close>: \<open>None\<close> when \<open>c\<close> does not occur and the unpacking raises\<close>
  "split_once c s =
     (if c \<in> set s then Some (takeWhile (\<lambda>x. x \<noteq> c) s, tl (dropWhile (\<lambda>x. x \<noteq> c) s))
      else None)"

definition digit_char :: "nat \<Rightarrow> char" where
  "digit_char d = char_of (48 + d)"

fun str_nat :: "nat \<Rightarrow> string" where
  "str_nat n = (if n < 10 then [digit_char n] else str_nat (n div 10) @ [digit_char (n mod 10)])"

definition str_int :: "int \<Rightarrow> string" where
  \<comment> \<open>\<open>str(i)\<close> for an integer\<close>
  "str_int i = (if i < 0 then CHR ''-'' # str_nat (nat (- i)) else str_nat (nat i))"

section \<open>Exceptions\<close>

text \<open>
  The exceptions the code raises or handles, as values. The classes of
  \<open>app/exceptions.py\<close> carry the message given to their constructor; the
  constructors below stand for the most specific class the handlers tell apart.
  \<open>SMTPConnectError\<close>, \<open>SMTPHeloError\<close> and \<open>SMTPResponseException\<close> are the
  exceptions of the SMTP client library, \<open>TimeoutError\<close> is \<open>asyncio.TimeoutError\<close>,
  \<open>ValidationError\<close> is the one the data classes of \<open>app/models.py\<close> raise for a
  field value they refuse, \<open>OtherException\<close> is any other subclass of \<open>Exception\<close>.
\<close>

datatype exn =
    NameError string
  | ValueError string
  | DnsError string
  | NxDomainError string
  | NoDnsRecordsError string
  | DnsTimeoutError string
  | SmtpError string
  | DomainExtractionError string
  | SMTPConnectError string
  | SMTPHeloError int string
  | SMTPResponseException int string
  | TimeoutError
  | OSError string
  | ValidationError string
  | OtherException string

fun isinstance_DnsError :: "exn \<Rightarrow> bool" where
  "isinstance_DnsError (DnsError m) = True"
| "isinstance_DnsError (NxDomainError d) = True"
| "isinstance_DnsError (NoDnsRecordsError d) = True"
| "isinstance_DnsError (DnsTimeoutError d) = True"
| "isinstance_DnsError e = False"

fun isinstance_SmtpError :: "exn \<Rightarrow> bool" where
  "isinstance_SmtpError (SmtpError m) = True"
| "isinstance_SmtpError e = False"

fun isinstance_EmailSleuthError :: "exn \<Rightarrow> bool" where
  "isinstance_EmailSleuthError (DomainExtractionError m) = True"
| "isinstance_EmailSleuthError e = (isinstance_DnsError e \<or> isinstance_SmtpError e)"

fun exn_str :: "exn \<Rightarrow> string" where
  \<comment> \<open>\<open>str(e)\<close>; the classes of \<open>app/exceptions.py\<close> prefix the message they are given\<close>
  "exn_str (NameError n) = ''name '' @ [CHR 0x27] @ n @ [CHR 0x27] @ '' is not defined''"
| "exn_str (ValueError m) = m"
| "exn_str (DnsError m) = ''DNS Resolution Error: '' @ m"
| "exn_str (NxDomainError d) = ''DNS Resolution Error: Domain Not Found (NXDOMAIN): '' @ d"
| "exn_str (NoDnsRecordsError d) = ''DNS Resolution Error: No DNS Records Found (MX/A): '' @ d"
| "exn_str (DnsTimeoutError d) = ''DNS Resolution Error: DNS Timeout for domain: '' @ d"
| "exn_str (SmtpError m) = ''SMTP Error: '' @ m"
| "exn_str (DomainExtractionError m) = ''Failed to extract domain from URL: '' @ m"
| "exn_str (SMTPConnectError m) = m"
| "exn_str (SMTPHeloError c m) = m"
| "exn_str (SMTPResponseException c m) = m"
| "exn_str TimeoutError = []"
| "exn_str (OSError m) = m"
| "exn_str (ValidationError m) = m"
| "exn_str (OtherException m) = m"

section \<open>Settings (\<open>app/config.py\<close>)\<close>

text \<open>
  The fields of \<open>Settings\<close> the discovery core reads. \<open>email_regex\<close> is the compiled
  pattern, used only through \<open>email_regex.match\<close>: it is kept as the predicate
  "the pattern matches at the start of the string".
\<close>

record Settings =
  email_regex :: "string \<Rightarrow> bool"
  generic_email_prefixes :: "string set"
  confidence_threshold :: int
  generic_confidence_threshold :: int
  sleep_between_requests :: "rat \<times> rat"
  max_verification_attempts :: int
  smtp_sender_email :: string

section \<open>DNS resolver (\<open>app/core/dns_utils.py\<close>)\<close>

record MailServer =
  exchange :: string
  preference :: int

record mx_record =
  host :: string
  priority :: int

text \<open>
  What one \<open>resolver.query\<close> under \<open>asyncio.wait_for\<close> does: it answers with records,
  runs into the timeout, raises the resolver library's \<open>DNSError\<close> (with the error code
  \<open>e.args[0]\<close> and the text the code reads as \<open>err_str\<close>), or raises something else.
\<close>

datatype 'a query_outcome =
    Answer "'a list"
  | WaitTimeout
  | AresError int string
  | QueryCrash string

text \<open>The error codes of the resolver library that the code compares with.\<close>

definition ARES_ENODATA :: int where "ARES_ENODATA = 1"
definition ARES_ENOTFOUND :: int where "ARES_ENOTFOUND = 4"
definition ARES_ETIMEOUT :: int where "ARES_ETIMEOUT = 12"

definition query_with_timeout :: "'a query_outcome \<Rightarrow> string \<Rightarrow> string \<Rightarrow> exn + 'a list" where
  "query_with_timeout outcome query_type domain =
     (case outcome of
        Answer rs \<Rightarrow> Inr rs
      | WaitTimeout \<Rightarrow> Inl (DnsTimeoutError domain)
      | AresError err_code err_str \<Rightarrow>
          if err_code = ARES_ENOTFOUND \<or> str_in ''NXDOMAIN'' err_str then Inl (NxDomainError domain)
          else if err_code = ARES_ENODATA then Inl (NoDnsRecordsError domain)
          else if err_code \<in> set [ARES_ETIMEOUT] then Inl (DnsTimeoutError domain)
          else Inl (DnsError (''DNS '' @ query_type @ '' lookup failed for '' @ domain @ '': ''
                              @ err_str @ '' (Code: '' @ str_int err_code @ '')''))
      | QueryCrash m \<Rightarrow>
          Inl (DnsError (''Unexpected error during DNS '' @ query_type @ '' query for ''
                         @ domain @ '': '' @ m)))"

text \<open>
  The world a resolution runs in: the outcome of the MX query, and the outcome of the
  \<open>k\<close>-th A query (a resolution makes at most two).
\<close>

record dns_world =
  mx_query :: "string \<Rightarrow> mx_record query_outcome"
  a_query :: "nat \<Rightarrow> string \<Rightarrow> string query_outcome"

text \<open>An A record is represented by its \<open>host\<close>, the only attribute read.\<close>

definition resolve_a_record_fallback :: "dns_world \<Rightarrow> nat \<Rightarrow> string \<Rightarrow> exn + MailServer" where
  \<comment> \<open>the second argument counts the A queries made before this call; both handlers re-raise\<close>
  "resolve_a_record_fallback w k domain =
     (case query_with_timeout (a_query w k domain) ''A'' domain of
        Inl e \<Rightarrow> Inl e
      | Inr a_records \<Rightarrow>
          (case a_records of
             [] \<Rightarrow> Inl (NoDnsRecordsError domain)
           | a # _ \<Rightarrow> Inr \<lparr>exchange = a, preference = 65535\<rparr>))"

definition resolve_mail_server_try :: "dns_world \<Rightarrow> string \<Rightarrow> (exn + MailServer) \<times> nat" where
  \<comment> \<open>the body of the \<open>try\<close>, with the number of A queries it made\<close>
  "resolve_mail_server_try w domain =
     (case query_with_timeout (mx_query w domain) ''MX'' domain of
        Inl e \<Rightarrow> (Inl e, 0)
      | Inr mx_records \<Rightarrow>
          if mx_records = [] then (resolve_a_record_fallback w 0 domain, 1)
          else
            (case sort_key priority mx_records of
               [] \<Rightarrow> (Inl (OtherException ''list index out of range''), 0)
             | best_mx # _ \<Rightarrow>
                 (let exchange = rstrip (CHR ''.'') (host best_mx);
                      preference = priority best_mx
                  in if exchange = []
                     then (Inl (NoDnsRecordsError (''Empty exchange in MX record for '' @ domain)), 0)
                     else (Inr \<lparr>exchange = exchange, preference = preference\<rparr>, 0))))"

definition resolve_mail_server :: "dns_world \<Rightarrow> string \<Rightarrow> exn + MailServer" where
  "resolve_mail_server w domain =
     (case resolve_mail_server_try w domain of
        (Inr ms, _) \<Rightarrow> Inr ms
      | (Inl e, k) \<Rightarrow>
          (case e of
             NoDnsRecordsError _ \<Rightarrow> resolve_a_record_fallback w k domain
           | _ \<Rightarrow> Inl e))"

section \<open>SMTP verifier (\<open>app/core/smtp_utils.py\<close>)\<close>

record SmtpVerificationResultInternal =
  exists :: "bool option"
  message :: string
  should_retry :: bool
  is_catch_all :: bool

definition conclusive :: "bool \<Rightarrow> string \<Rightarrow> bool \<Rightarrow> SmtpVerificationResultInternal" where
  "conclusive ex msg ca = \<lparr>exists = Some ex, message = msg, should_retry = False, is_catch_all = ca\<rparr>"

definition inconclusive_retry :: "string \<Rightarrow> bool \<Rightarrow> SmtpVerificationResultInternal" where
  "inconclusive_retry msg ca = \<lparr>exists = None, message = msg, should_retry = True, is_catch_all = ca\<rparr>"

definition inconclusive_no_retry :: "string \<Rightarrow> bool \<Rightarrow> SmtpVerificationResultInternal" where
  "inconclusive_no_retry msg ca = \<lparr>exists = None, message = msg, should_retry = False, is_catch_all = ca\<rparr>"

text \<open>
  The names bound in the module namespace of \<open>smtp_utils.py\<close> when its functions run:
  the imports at the top of the file, \<open>log\<close>, and the two classes it defines. A name
  that is read and is not among them (nor a builtin) raises \<open>NameError\<close>.
\<close>

definition smtp_utils_globals :: "string list" where
  "smtp_utils_globals =
     [''asyncio'', ''logging'', ''random'', ''string'', ''Optional'', ''Tuple'', ''aiosmtplib'',
      ''Settings'', ''SmtpError'', ''SmtpCommandError'', ''SmtpTlsError'',
      ''SmtpTemporaryFailureError'', ''SmtpPermanentFailureError'', ''SmtpInconclusiveError'',
      ''ConfigError'', ''resolve_mail_server'', ''MailServer'', ''create_resolver'', ''log'',
      ''SmtpVerificationResultInternal'', ''SmtpVerifier'']"

fun load_globals :: "string list \<Rightarrow> string list \<Rightarrow> exn + unit" where
  \<comment> \<open>reading the names of an expression from left to right\<close>
  "load_globals globals [] = Inr ()"
| "load_globals globals (n # ns) =
     (if n \<in> set globals then load_globals globals ns else Inl (NameError n))"

definition get_mail_server :: "dns_world \<Rightarrow> string \<Rightarrow> exn + MailServer option" where
  \<comment> \<open>\<open>SmtpVerifier._get_mail_server\<close>. When the body of the \<open>try\<close> raises, the clause
      \<open>except (SmtpError, DnsError)\<close> first evaluates its tuple of classes.\<close>
  "get_mail_server w domain =
     (case resolve_mail_server w domain of
        Inr mail_server \<Rightarrow> Inr (Some mail_server)
      | Inl e \<Rightarrow>
          (case load_globals smtp_utils_globals [''SmtpError'', ''DnsError''] of
             Inl name_error \<Rightarrow> Inl name_error
           | Inr _ \<Rightarrow>
               if isinstance_SmtpError e \<or> isinstance_DnsError e then Inr None else Inl e))"

definition ascii_lowercase :: string where
  "ascii_lowercase = ''abcdefghijklmnopqrstuvwxyz''"

definition digits :: string where
  "digits = ''0123456789''"

definition random_choice :: "'a list \<Rightarrow> nat \<Rightarrow> 'a" where
  \<comment> \<open>\<open>random.choice(seq)\<close> on a non-empty sequence: the draw \<open>r\<close> selects an index in range\<close>
  "random_choice seq r = seq ! (r mod length seq)"

definition generate_random_local_part :: "(nat \<Rightarrow> nat) \<Rightarrow> nat \<Rightarrow> string" where
  \<comment> \<open>\<open>SmtpVerifier._generate_random_local_part\<close>; \<open>draw i\<close> is the \<open>i\<close>-th random draw\<close>
  "generate_random_local_part draw len =
     (let chars = ascii_lowercase @ digits in map (\<lambda>i. random_choice chars (draw i)) [0..<len])"

text \<open>
  The effects of a verification, in the order they happen: the SMTP commands issued
  (with the host connected to, the name greeted with, the sender and the recipient), and
  the sleeps between attempts with their duration.
\<close>

datatype event =
    SmtpConnect string
  | SmtpEhlo string
  | SmtpMailFrom string
  | SmtpRcptTo string
  | SmtpQuit
  | Sleep rat

text \<open>
  What the peer and the SMTP client library do during one attempt: whether
  \<open>parse_address\<close> accepts the recipient, the outcome of each command (a reply, or the
  exception the client raises), whether the client is still connected when the
  \<open>finally\<close> block runs, and the random draws of this attempt.
\<close>

record smtp_session =
  parse_address_ok :: bool
  connect_reply :: "exn + unit"
  ehlo_reply :: "exn + unit"
  mail_reply :: "exn + int \<times> string"
  rcpt_reply :: "exn + int \<times> string"
  probe_reply :: "exn + int \<times> string"
  is_connected :: bool
  choice_draw :: "nat \<Rightarrow> nat"
  uniform_draw :: rat

text \<open>
  The SMTP client is the library \<open>aiosmtplib\<close>. Its commands hand the server's response
  to the caller only when it is the one the command expects: \<open>mail\<close> returns a
  response with code 250 and raises \<open>SMTPSenderRefused\<close> for any other, \<open>rcpt\<close>
  returns a response with code 250 or 251 and raises \<open>SMTPRecipientRefused\<close> for any
  other. Both exceptions are subclasses of \<open>SMTPResponseException\<close> and carry the code
  and the text of the response. A response that does not arrive (a timeout, a lost
  connection) is the exception of the transport.
\<close>

definition aiosmtplib_mail :: "exn + int \<times> string \<Rightarrow> exn + int \<times> string" where
  \<comment> \<open>what \<open>smtp_client.mail\<close> makes of the server's response to \<open>MAIL FROM\<close>\<close>
  "aiosmtplib_mail response =
     (case response of
        Inl e \<Rightarrow> Inl e
      | Inr (code, msg) \<Rightarrow>
          if code \<noteq> 250 then Inl (SMTPResponseException code msg) else Inr (code, msg))"

definition aiosmtplib_rcpt :: "exn + int \<times> string \<Rightarrow> exn + int \<times> string" where
  \<comment> \<open>what \<open>smtp_client.rcpt\<close> makes of the server's response to \<open>RCPT TO\<close>\<close>
  "aiosmtplib_rcpt response =
     (case response of
        Inl e \<Rightarrow> Inl e
      | Inr (code, msg) \<Rightarrow>
          if code \<notin> set [250, 251] then Inl (SMTPResponseException code msg) else Inr (code, msg))"

definition client_session ::
  "smtp_session \<Rightarrow> exn + int \<times> string \<Rightarrow> exn + int \<times> string \<Rightarrow> exn + int \<times> string
     \<Rightarrow> smtp_session" where
  \<comment> \<open>the session in which the server responds to \<open>MAIL FROM\<close>, to the first and to the
      second \<open>RCPT TO\<close> as given, and the rest is as in \<open>s\<close>\<close>
  "client_session s mail_response rcpt_response sample_response =
     s\<lparr>mail_reply := aiosmtplib_mail mail_response,
       rcpt_reply := aiosmtplib_rcpt rcpt_response,
       probe_reply := aiosmtplib_rcpt sample_response\<rparr>"

definition rejection_phrases :: "string list" where
  "rejection_phrases =
     [''unknown'', ''no such'', ''unavailable'', ''rejected'', ''doesn'' @ [CHR 0x27] @ ''t exist'',
      ''disabled'', ''invalid address'', ''recipient not found'', ''user unknown'',
      ''mailbox unavailable'', ''no mailbox'']"

definition interpret_rcpt :: "int \<Rightarrow> string \<Rightarrow> bool \<Rightarrow> SmtpVerificationResultInternal" where
  \<comment> \<open>lines 150-187: "Interpret RCPT TO result"\<close>
  "interpret_rcpt target_code target_msg catch_all =
     (if target_code < 300 then
        (if catch_all
         then inconclusive_retry (''SMTP accepted (Possible Catch-All): '' @ str_int target_code
                                  @ '' '' @ target_msg) True
         else conclusive True (''SMTP Verification OK: '' @ str_int target_code @ '' '' @ target_msg)
                False)
      else if 300 \<le> target_code \<and> target_code < 400 then
        inconclusive_retry (''SMTP Unexpected Intermediate Code: '' @ str_int target_code
                            @ '' '' @ target_msg) False
      else if 400 \<le> target_code \<and> target_code < 500 then
        inconclusive_retry (''SMTP Temp Failure/Greylisted? (4xx): '' @ str_int target_code
                            @ '' '' @ target_msg) False
      else
        (let msg_lower = lower target_msg;
             is_user_unknown = (str_int target_code \<in> set [''550'', ''551'', ''553'']
                                \<or> (\<exists>p \<in> set rejection_phrases. str_in p msg_lower))
         in if is_user_unknown
            then conclusive False (''SMTP Rejected (User Likely Unknown): '' @ str_int target_code
                                   @ '' '' @ target_msg) False
            else conclusive False (''SMTP Rejected (Policy/Other 5xx): '' @ str_int target_code
                                   @ '' '' @ target_msg) False))"

definition catch_all_probe :: "smtp_session \<Rightarrow> string \<Rightarrow> bool \<times> event list" where
  \<comment> \<open>lines 134-147: the second \<open>RCPT TO\<close>; every exception it raises is swallowed\<close>
  "catch_all_probe s domain =
     (let random_local = generate_random_local_part (choice_draw s) 12;
          random_email = random_local @ ''@'' @ domain
      in (case probe_reply s of
            Inr (catch_all_code, catch_all_msg) \<Rightarrow> catch_all_code < 400
          | Inl e \<Rightarrow> False,
          [SmtpRcptTo random_email]))"

definition verify_single_attempt_try ::
  "Settings \<Rightarrow> smtp_session \<Rightarrow> string \<Rightarrow> string \<Rightarrow> MailServer
     \<Rightarrow> (exn + SmtpVerificationResultInternal) \<times> event list" where
  \<comment> \<open>the body of the outer \<open>try\<close> after the recipient was parsed, with the commands issued\<close>
  "verify_single_attempt_try settings s email_addr domain mail_server =
     (let c = [SmtpConnect (exchange mail_server)];
          h = c @ [SmtpEhlo ''localhost''];
          m = h @ [SmtpMailFrom (smtp_sender_email settings)];
          r = m @ [SmtpRcptTo email_addr]
      in case connect_reply s of
           Inl e \<Rightarrow> (Inl e, c)
         | Inr _ \<Rightarrow>
        (case ehlo_reply s of
           Inl e \<Rightarrow> (Inl e, h)
         | Inr _ \<Rightarrow>
        (case mail_reply s of
           Inl e \<Rightarrow> (Inl e, m)
         | Inr (code, msg) \<Rightarrow>
             if code \<ge> 400 then
               (if str_in ''starttls'' (lower msg)
                   \<or> (str_in ''530'' (str_int code) \<and> str_in ''5.7.0'' (lower msg))
                then (Inr (inconclusive_retry (''Server requires STARTTLS: '' @ str_int code
                                               @ '' '' @ msg) False), m)
                else (Inr (inconclusive_no_retry (''MAIL FROM rejected: '' @ str_int code
                                                  @ '' '' @ msg) False), m))
             else
               (case rcpt_reply s of
                  Inl e \<Rightarrow> (Inl e, r)
                | Inr (target_code, target_msg) \<Rightarrow>
                    (let (catch_all, probe) =
                           (if target_code < 400 then catch_all_probe s domain else (False, []))
                     in (Inr (interpret_rcpt target_code target_msg catch_all), r @ probe))))))"

definition verify_single_attempt_except :: "exn \<Rightarrow> exn + SmtpVerificationResultInternal" where
  \<comment> \<open>the \<open>except\<close> clauses of the outer \<open>try\<close>, in their order\<close>
  "verify_single_attempt_except e =
     (case e of
        SMTPConnectError m \<Rightarrow>
          (let err_str = lower m
           in if str_in ''timed out'' err_str \<or> str_in ''connection refused'' err_str
              then Inr (inconclusive_no_retry (''Connection failed (likely blocked): '' @ m) False)
              else Inr (inconclusive_retry (''Connection failed: '' @ m) False))
      | SMTPHeloError c m \<Rightarrow>
          Inr (inconclusive_retry (''HELO/EHLO failed: '' @ str_int c @ '' '' @ m) False)
      | SMTPResponseException c m \<Rightarrow>
          if 400 \<le> c \<and> c < 500
          then Inr (inconclusive_retry (''SMTP Temp Failure (4xx): '' @ str_int c @ '' '' @ m) False)
          else if c \<ge> 500
          then Inr (inconclusive_retry (''SMTP Perm Failure? (5xx): '' @ str_int c @ '' '' @ m) False)
          else Inr (inconclusive_retry (''SMTP Response Error: '' @ str_int c @ '' '' @ m) False)
      | TimeoutError \<Rightarrow> Inr (inconclusive_retry ''SMTP operation timed out'' False)
      | OSError m \<Rightarrow> Inr (inconclusive_retry (''Socket error: '' @ m) False)
      | _ \<Rightarrow> Inl (SmtpError (''Unexpected SMTP error: '' @ exn_str e)))"

definition verify_single_attempt ::
  "Settings \<Rightarrow> smtp_session \<Rightarrow> string \<Rightarrow> string \<Rightarrow> MailServer
     \<Rightarrow> (exn + SmtpVerificationResultInternal) \<times> event list" where
  \<comment> \<open>\<open>SmtpVerifier._verify_single_attempt\<close>; the \<open>finally\<close> block sends \<open>QUIT\<close> when a
      client exists and is connected, and ignores what \<open>QUIT\<close> raises\<close>
  "verify_single_attempt settings s email_addr domain mail_server =
     (if \<not> parse_address_ok s then (Inr (conclusive False ''Invalid email format'' False), [])
      else
        (let (r, tr) = verify_single_attempt_try settings s email_addr domain mail_server;
             r' = (case r of Inl e \<Rightarrow> verify_single_attempt_except e | Inr x \<Rightarrow> Inr x)
         in (r', tr @ (if is_connected s then [SmtpQuit] else []))))"

definition uniform :: "rat \<Rightarrow> rat \<Rightarrow> rat \<Rightarrow> rat" where
  \<comment> \<open>\<open>random.uniform(a, b)\<close> is \<open>a + (b - a) * random()\<close>; \<open>u\<close> is the value of
      \<open>random()\<close>, over exact numbers\<close>
  "uniform a b u = a + (b - a) * u"

definition sleep_duration :: "Settings \<Rightarrow> rat \<Rightarrow> rat" where
  "sleep_duration settings u =
     (let (min_sleep, max_sleep) = sleep_between_requests settings
      in if max_sleep > min_sleep then uniform min_sleep max_sleep u else min_sleep)"

fun attempts_loop ::
  "Settings \<Rightarrow> (nat \<Rightarrow> smtp_session) \<Rightarrow> string \<Rightarrow> string \<Rightarrow> MailServer \<Rightarrow> nat \<Rightarrow> nat
     \<Rightarrow> bool option \<times> string \<times> bool \<Rightarrow> event list
     \<Rightarrow> (bool option \<times> string \<times> bool) \<times> event list" where
  \<comment> \<open>the \<open>for attempt in range(max_verification_attempts)\<close> loop: \<open>attempt\<close> is the loop
      variable, the next argument the number of iterations left, then the variables
      \<open>(last_result, last_message, is_catch_all)\<close> and the events so far\<close>
  "attempts_loop settings sessions email_addr domain mail_server attempt 0 vars tr = (vars, tr)"
| "attempts_loop settings sessions email_addr domain mail_server attempt (Suc left)
     (last_result, last_message, catch_all) tr =
     (case verify_single_attempt settings (sessions attempt) email_addr domain mail_server of
        (Inr result, tr1) \<Rightarrow>
          if exists result \<noteq> None
          then ((exists result, message result, is_catch_all result), tr @ tr1)
          else if \<not> should_retry result
          then ((exists result, message result, is_catch_all result), tr @ tr1)
          else
            (let tr2 = (if int attempt < max_verification_attempts settings - 1
                           \<and> exists result = None
                        then [Sleep (sleep_duration settings (uniform_draw (sessions attempt)))]
                        else [])
             in attempts_loop settings sessions email_addr domain mail_server (Suc attempt) left
                  (exists result, message result, is_catch_all result) (tr @ tr1 @ tr2))
      | (Inl e, tr1) \<Rightarrow>
          if isinstance_SmtpError e
          then ((last_result, ''Internal error during SMTP check: '' @ exn_str e, catch_all),
                tr @ tr1)
          else ((last_result, ''Critical internal error during SMTP check: '' @ exn_str e, catch_all),
                tr @ tr1))"

text \<open>
  The world of one verification: the DNS answers, and the SMTP session of each attempt.
\<close>

record smtp_world =
  dns :: dns_world
  sessions :: "nat \<Rightarrow> smtp_session"

definition verify_email_with_retries ::
  "Settings \<Rightarrow> smtp_world \<Rightarrow> string \<Rightarrow> (exn + bool option \<times> string \<times> bool) \<times> event list" where
  \<comment> \<open>\<open>SmtpVerifier.verify_email_with_retries\<close>: what it returns or raises, and its events\<close>
  "verify_email_with_retries settings w email_addr =
     (let domain = split_last (CHR ''@'') email_addr
      in case get_mail_server (dns w) domain of
           Inl e \<Rightarrow> (Inl e, [])
         | Inr None \<Rightarrow> (Inr (None, ''SMTP check skipped (DNS lookup failed)'', False), [])
         | Inr (Some mail_server) \<Rightarrow>
             (case attempts_loop settings (sessions w) email_addr domain mail_server 0
                     (nat (max_verification_attempts settings))
                     (None, ''SMTP check did not run or complete'', False) [] of
                (v, tr) \<Rightarrow> (Inr v, tr)))"

section \<open>Pattern generator (\<open>app/core/patterns.py\<close>)\<close>

definition isspace :: "char \<Rightarrow> bool" where
  \<comment> \<open>the ASCII characters \<open>str.split()\<close> treats as whitespace\<close>
  "isspace c = (let n = (of_char c :: nat) in (9 \<le> n \<and> n \<le> 13) \<or> (28 \<le> n \<and> n \<le> 32))"

definition sanitize_name_part :: "string \<Rightarrow> string" where
  \<comment> \<open>\<open>_sanitize_name_part\<close>: \<open>"".join(part.split()).lower()\<close>\<close>
  "sanitize_name_part part = (if part = [] then [] else lower (filter (\<lambda>c. \<not> isspace c) part))"

definition local_parts :: "string \<Rightarrow> string \<Rightarrow> string list" where
  \<comment> \<open>the members of the set \<open>local_parts\<close>, for the sanitized names \<open>first\<close> and \<open>last\<close>\<close>
  "local_parts first_p last_p =
     (let first_initial = take 1 first_p;
          last_initial = take 1 last_p
      in [first_p,
          first_p @ ''.'' @ last_p,
          first_p @ last_p,
          last_p @ ''.'' @ first_p,
          last_p @ first_p,
          first_initial @ last_p,
          first_initial @ ''.'' @ last_p,
          first_p @ last_initial,
          first_p @ ''.'' @ last_initial,
          first_p @ ''_'' @ last_p,
          first_p @ ''-'' @ last_p,
          last_p @ ''_'' @ first_p,
          last_p @ ''-'' @ first_p]
         @ (if length first_p \<ge> 3 then [take 3 first_p @ last_p] else [])
         @ (if length last_p \<ge> 3 then [first_p @ take 3 last_p] else []))"

definition generate_email_patterns :: "Settings \<Rightarrow> string \<Rightarrow> string \<Rightarrow> string \<Rightarrow> string list" where
  \<comment> \<open>the result is \<open>sorted(list(patterns_set))\<close>: the distinct addresses in string order\<close>
  "generate_email_patterns settings first_name last_name domain =
     (if first_name = [] \<or> last_name = [] \<or> domain = [] \<or> CHR ''.'' \<notin> set domain then []
      else
        (let first_p = sanitize_name_part first_name;
             last_p = sanitize_name_part last_name
         in if first_p = [] \<or> last_p = [] then []
            else sort (remdups
                   (filter (email_regex settings)
                      (map (\<lambda>lp. lp @ ''@'' @ domain)
                         (filter (\<lambda>lp. lp \<noteq> []) (local_parts first_p last_p)))))))"

section \<open>Discovery orchestrator (\<open>app/core/beacon.py\<close>)\<close>

record FoundEmailData =
  email :: string
  confidence :: int
  source :: string
  is_generic :: bool
  verification_status :: "bool option"
  verification_message :: string

record EmailResult =
  found_emails :: "FoundEmailData list"
  most_likely_email :: "string option"
  confidence_score :: int
  methods_used :: "string list"
  verification_log :: "string \<rightharpoonup> string"

text \<open>
  The orchestrator's own effects: the log line that opens the assessment of a candidate,
  the call of the verifier (with the events of that call), and its sleeps.
\<close>

datatype beacon_event =
    Assessing string
  | SmtpVerification string "event list"
  | BeaconSleep rat

text \<open>
  The world of one discovery: what the scraper returns or raises for the website, the
  world each candidate's verification runs in, the value of \<open>random()\<close> for the
  \<open>k\<close>-th sleep, and what the validation of the field \<open>email: EmailStr\<close> makes of an
  address when a \<open>FoundEmailData\<close> is built: the validated address that is stored, or
  \<open>None\<close> when it raises \<open>ValidationError\<close>.
\<close>

record beacon_world =
  scrape_website_for_emails :: "string \<Rightarrow> exn + string list"
  smtp_worlds :: "string \<Rightarrow> smtp_world"
  sleep_draw :: "nat \<Rightarrow> rat"
  validate_email :: "string \<Rightarrow> string option"

definition is_generic_prefix :: "Settings \<Rightarrow> string \<Rightarrow> bool" where
  "is_generic_prefix settings e =
     (let local_part = lower (split_first (CHR ''@'') e)
      in local_part \<in> generic_email_prefixes settings)"

definition name_in :: "string \<Rightarrow> string \<Rightarrow> string \<Rightarrow> bool" where
  \<comment> \<open>\<open>first_lower in lp or last_lower in lp\<close>\<close>
  "name_in first_lower last_lower lp = (str_in first_lower lp \<or> str_in last_lower lp)"

definition add_candidate :: "string \<Rightarrow> string list \<times> string set \<Rightarrow> string list \<times> string set" where
  \<comment> \<open>the state is \<open>(all_candidates, seen_candidates)\<close>\<close>
  "add_candidate e st =
     (let email_lower = lower e;
          (all_candidates, seen_candidates) = st
      in if email_lower \<notin> seen_candidates
         then (all_candidates @ [email_lower], insert email_lower seen_candidates)
         else st)"

definition combine_candidates :: "string \<Rightarrow> string \<Rightarrow> string list \<Rightarrow> string list \<Rightarrow> string list" where
  \<comment> \<open>lines 102-133: the list \<open>all_candidates\<close>\<close>
  "combine_candidates first_lower last_lower generated_patterns scraped_emails =
     (let name_candidates =
            filter (\<lambda>p. name_in first_lower last_lower (split_first (CHR ''@'') p)) generated_patterns
            @ filter (\<lambda>s. name_in first_lower last_lower (split_first (CHR ''@'') s)) scraped_emails;
          other_candidates =
            filter (\<lambda>p. \<not> name_in first_lower last_lower (split_first (CHR ''@'') p)) generated_patterns
            @ filter (\<lambda>s. \<not> name_in first_lower last_lower (split_first (CHR ''@'') s)) scraped_emails
      in fst (fold add_candidate other_candidates (fold add_candidate name_candidates ([], {}))))"

definition base_confidence :: "bool \<Rightarrow> bool \<Rightarrow> bool \<Rightarrow> bool \<Rightarrow> int" where
  \<comment> \<open>lines 170-175\<close>
  "base_confidence is_pattern is_scraped name_in_email matches_primary_domain =
     (let c0 = 0;
          c1 = (if is_pattern \<and> name_in_email then c0 + 3 else c0);
          c2 = (if is_scraped \<and> name_in_email then c1 + 5 else c1);
          c3 = (if is_scraped \<and> \<not> name_in_email then c2 + 2 else c2);
          c4 = (if is_pattern \<and> \<not> name_in_email then c3 + 1 else c3)
      in if matches_primary_domain then c4 + 1 else c4)"

definition generic_penalty :: "bool \<Rightarrow> bool \<Rightarrow> int \<Rightarrow> int" where
  \<comment> \<open>lines 180-188\<close>
  "generic_penalty generic name_in_email c =
     (if generic then
        (if name_in_email \<and> c > 1 then max 1 (c - 5)
         else if \<not> name_in_email \<and> c > 2 then max 1 (c - 2)
         else c)
      else c)"

definition should_verify_smtp :: "int \<Rightarrow> bool \<Rightarrow> bool \<Rightarrow> bool" where
  \<comment> \<open>line 195\<close>
  "should_verify_smtp c is_scraped name_in_email = (c \<ge> 3 \<or> (is_scraped \<and> name_in_email \<and> c > 1))"

definition after_verification ::
  "int \<Rightarrow> exn + bool option \<times> string \<times> bool \<Rightarrow> int \<times> bool option \<times> string" where
  \<comment> \<open>lines 204-233: the confidence, \<open>verification_status\<close> and \<open>verification_message\<close>
      after the call of the verifier returned or raised\<close>
  "after_verification c outcome =
     (case outcome of
        Inr (ver_status, ver_msg, catch_all) \<Rightarrow>
          (case ver_status of
             Some True \<Rightarrow> (c + 5, ver_status, ver_msg)
           | Some False \<Rightarrow> (0, ver_status, ver_msg)
           | None \<Rightarrow> (c + (if catch_all then 0 else 1), ver_status, ver_msg))
      | Inl e \<Rightarrow>
          if isinstance_EmailSleuthError e then (c, None, ''SMTP Error: '' @ exn_str e)
          else (c, None, ''Unexpected SMTP Error: '' @ exn_str e))"

text \<open>
  The variables the candidate loop updates: \<open>verified_emails_data\<close>,
  \<open>results.methods_used\<close>, \<open>results.verification_log\<close> (without the elapsed time the
  code appends to each entry), the events so far and the number of sleeps so far.
\<close>

record assess_state =
  verified_emails_data :: "FoundEmailData list"
  methods :: "string list"
  log_entries :: "string \<rightharpoonup> string"
  trace :: "beacon_event list"
  sleeps :: nat

definition score_and_verify ::
  "Settings \<Rightarrow> beacon_world \<Rightarrow> string \<Rightarrow> bool \<Rightarrow> bool \<Rightarrow> bool \<Rightarrow> bool \<Rightarrow> bool
     \<Rightarrow> assess_state \<Rightarrow> exn + assess_state" where
  \<comment> \<open>lines 169-269 of the loop body, for a candidate that passed the checks before them:
      scoring, SMTP verification, the record and the sleep. Building the record raises
      when the address does not validate, and then nothing of the iteration remains.\<close>
  "score_and_verify settings w e is_scraped is_pattern generic matches_primary_domain
     name_in_email st1 =
     (let c = generic_penalty generic name_in_email
                (base_confidence is_pattern is_scraped name_in_email matches_primary_domain);
          should_verify = should_verify_smtp c is_scraped name_in_email;
          (outcome, evs) =
            (if should_verify
             then (case verify_email_with_retries settings (smtp_worlds w e) e of
                     (r, evs) \<Rightarrow> (Some r, evs))
             else (None, []));
          (c', status, msg) =
            (case outcome of
               Some r \<Rightarrow> after_verification c r
             | None \<Rightarrow> (c, None, ''Verification skipped (low initial confidence)''));
          final_confidence = max 0 (min 10 c');
          stored =
            (if final_confidence > 0
             then (case validate_email w e of
                     None \<Rightarrow> Inl (ValidationError e)
                   | Some validated \<Rightarrow>
                       Inr (verified_emails_data st1 @
                              [\<lparr>email = validated, confidence = final_confidence,
                                source = (if is_scraped then ''scraped'' else ''pattern''),
                                is_generic = generic, verification_status = status,
                                verification_message = msg\<rparr>]))
             else Inr (verified_emails_data st1))
      in case stored of
           Inl ex \<Rightarrow> Inl ex
         | Inr data \<Rightarrow>
             Inr \<lparr>verified_emails_data = data,
                  methods =
                    (if should_verify \<and> ''smtp_verification'' \<notin> set (methods st1)
                     then methods st1 @ [''smtp_verification''] else methods st1),
                  log_entries = (log_entries st1)(e \<mapsto> msg),
                  trace =
                    (if should_verify
                     then trace st1 @ [SmtpVerification e evs,
                            BeaconSleep (sleep_duration settings (sleep_draw w (sleeps st1)))]
                     else trace st1),
                  sleeps = (if should_verify then Suc (sleeps st1) else sleeps st1)\<rparr>)"

definition assess_candidate ::
  "Settings \<Rightarrow> beacon_world \<Rightarrow> string \<Rightarrow> string \<Rightarrow> string \<Rightarrow> string list \<Rightarrow> string list
     \<Rightarrow> string \<Rightarrow> assess_state \<Rightarrow> exn + assess_state" where
  \<comment> \<open>one iteration of \<open>for email in all_candidates\<close> (lines 145-269): the two
      \<open>continue\<close> checks and the unpacking of \<open>email.split('@', 1)\<close>, then the rest;
      \<open>Inl\<close> is the exception that ends the loop and \<open>find_email\<close>\<close>
  "assess_candidate settings w first_lower last_lower domain generated_patterns scraped_emails e st =
     (if \<not> email_regex settings e then Inr st
      else
        (let st1 = st\<lparr>trace := trace st @ [Assessing e]\<rparr>
         in case split_once (CHR ''@'') e of
              None \<Rightarrow> Inl (ValueError ''not enough values to unpack (expected 2, got 1)'')
            | Some (email_local_part, email_domain_part) \<Rightarrow>
                (let is_scraped = (e \<in> set scraped_emails);
                     is_pattern = (e \<in> set generated_patterns);
                     generic = is_generic_prefix settings e;
                     matches_primary_domain = (email_domain_part = domain)
                 in if \<not> matches_primary_domain \<and> \<not> (is_scraped \<and> generic) then Inr st1
                    else
                      (let name_in_email = name_in first_lower last_lower email_local_part
                       in score_and_verify settings w e is_scraped is_pattern generic
                            matches_primary_domain name_in_email st1))))"

fun assess_candidates ::
  "Settings \<Rightarrow> beacon_world \<Rightarrow> string \<Rightarrow> string \<Rightarrow> string \<Rightarrow> string list \<Rightarrow> string list
     \<Rightarrow> string list \<Rightarrow> assess_state \<Rightarrow> exn + assess_state" where
  "assess_candidates settings w first_lower last_lower domain generated_patterns scraped_emails
     [] st = Inr st"
| "assess_candidates settings w first_lower last_lower domain generated_patterns scraped_emails
     (e # es) st =
     (case assess_candidate settings w first_lower last_lower domain generated_patterns
             scraped_emails e st of
        Inl ex \<Rightarrow> Inl ex
      | Inr st' \<Rightarrow>
          assess_candidates settings w first_lower last_lower domain generated_patterns
            scraped_emails es st')"

definition sort_key_of :: "FoundEmailData \<Rightarrow> int \<times> bool \<times> bool" where
  \<comment> \<open>the \<open>key\<close> of the sort at line 274\<close>
  "sort_key_of r = (confidence r, \<not> is_generic r, source r = ''scraped'')"

definition sort_found :: "FoundEmailData list \<Rightarrow> FoundEmailData list" where
  \<comment> \<open>\<open>list.sort(key=..., reverse=True)\<close>: descending, and stable (records with equal
      keys keep their order)\<close>
  "sort_found rs = rev (sort_key sort_key_of (rev rs))"

definition select_best :: "Settings \<Rightarrow> FoundEmailData list \<Rightarrow> string option \<times> int" where
  \<comment> \<open>lines 281-305: \<open>(most_likely_email, confidence_score)\<close>\<close>
  "select_best settings found =
     (case find (\<lambda>r. \<not> is_generic r \<and> confidence r \<ge> confidence_threshold settings) found of
        Some best_non_generic \<Rightarrow> (Some (email best_non_generic), confidence best_non_generic)
      | None \<Rightarrow>
          (case found of
             [] \<Rightarrow> (None, 0)
           | top_candidate # _ \<Rightarrow>
               if confidence top_candidate \<ge> confidence_threshold settings
                  \<and> (\<not> is_generic top_candidate
                      \<or> confidence top_candidate \<ge> generic_confidence_threshold settings)
               then (Some (email top_candidate), confidence top_candidate)
               else (None, 0)))"

definition scrape_step ::
  "Settings \<Rightarrow> beacon_world \<Rightarrow> string \<Rightarrow> string \<Rightarrow> string list \<times> (string \<rightharpoonup> string)" where
  \<comment> \<open>lines 78-99: \<open>scraped_emails\<close> and the log after the scrape\<close>
  "scrape_step settings w domain website_url =
     (case scrape_website_for_emails w website_url of
        Inr scraped_emails_raw \<Rightarrow>
          (filter (\<lambda>e. endswith (''@'' @ domain) e \<or> is_generic_prefix settings e) scraped_emails_raw,
           Map.empty)
      | Inl ex \<Rightarrow>
          ([], [''scraping_error'' \<mapsto>
                 (if isinstance_EmailSleuthError ex then ''Scraping failed: '' @ exn_str ex
                  else ''Unexpected scraping error: '' @ exn_str ex)]))"

definition assess_all_candidates ::
  "Settings \<Rightarrow> beacon_world \<Rightarrow> string \<Rightarrow> string \<Rightarrow> string \<Rightarrow> string \<Rightarrow> exn + assess_state" where
  \<comment> \<open>steps 1 to 4 of \<open>MailBeacon.find_email\<close> (lines 67-269): the variables when the
      candidate loop ends, or the exception that ended it\<close>
  "assess_all_candidates settings w first_name last_name domain website_url =
     (let first_lower = lower first_name;
          last_lower = lower last_name;
          generated_patterns = generate_email_patterns settings first_name last_name domain;
          methods1 = (if generated_patterns \<noteq> [] then [''pattern_generation''] else []);
          (scraped_emails, log1) = scrape_step settings w domain website_url;
          methods2 = (if scraped_emails \<noteq> [] then methods1 @ [''website_scraping''] else methods1);
          all_candidates = combine_candidates first_lower last_lower generated_patterns scraped_emails
      in assess_candidates settings w first_lower last_lower domain generated_patterns
           scraped_emails all_candidates
           \<lparr>verified_emails_data = [], methods = methods2, log_entries = log1,
             trace = [], sleeps = 0\<rparr>)"

definition find_email ::
  "Settings \<Rightarrow> beacon_world \<Rightarrow> string \<Rightarrow> string \<Rightarrow> string \<Rightarrow> string
     \<Rightarrow> exn + EmailResult \<times> beacon_event list" where
  \<comment> \<open>\<open>MailBeacon.find_email\<close>: the result with the events of the run, or the exception.
      Step 5 (lines 272-311) sorts the records the loop kept and selects.\<close>
  "find_email settings w first_name last_name domain website_url =
     (case assess_all_candidates settings w first_name last_name domain website_url of
        Inl ex \<Rightarrow> Inl ex
      | Inr st \<Rightarrow>
          (let found = sort_found (verified_emails_data st);
               (most_likely, score) = select_best settings found
           in Inr (\<lparr>found_emails = found, most_likely_email = most_likely,
                     confidence_score = score, methods_used = methods st,
                     verification_log = log_entries st\<rparr>,
                   trace st)))"

section \<open>Domain utilities (\<open>app/core/domain_utils.py\<close>)\<close>

text \<open>
  \<open>urlparse\<close> is the standard library's. \<open>extract_domain\<close> reads the attributes
  \<open>netloc\<close> and \<open>hostname\<close> of its result and handles the \<open>ValueError\<close> it can raise,
  so the parser is a parameter of the model: it returns the parse result, or the
  message of its \<open>ValueError\<close>.
\<close>

record ParseResult =
  netloc :: string
  hostname :: "string option"

definition with_scheme :: "string \<Rightarrow> string" where
  \<comment> \<open>lines 27-29: \<open>url_str_with_scheme\<close>\<close>
  "with_scheme url_str =
     (if \<not> startswith ''http://'' url_str \<and> \<not> startswith ''https://'' url_str
      then ''https://'' @ url_str else url_str)"

definition host_of :: "ParseResult \<Rightarrow> string option" where
  \<comment> \<open>lines 39-45: \<open>netloc\<close>, or \<open>hostname\<close> when \<open>netloc\<close> is empty; \<open>None\<close> when
      both are empty or missing\<close>
  "host_of parsed_url =
     (if netloc parsed_url \<noteq> [] then Some (netloc parsed_url)
      else (case hostname parsed_url of
              None \<Rightarrow> None
            | Some h \<Rightarrow> if h = [] then None else Some h))"

definition domain_of_host :: "string \<Rightarrow> string" where
  \<comment> \<open>lines 47-54: cut at the first colon, remove the prefix \<open>www.\<close>, lower\<close>
  "domain_of_host h =
     (let h1 = (if CHR '':'' \<in> set h then split_first (CHR '':'') h else h);
          domain = removeprefix ''www.'' h1
      in lower domain)"

definition extract_domain :: "(string \<Rightarrow> string + ParseResult) \<Rightarrow> string \<Rightarrow> exn + string" where
  "extract_domain urlparse url_str =
     (if url_str = [] then Inl (DomainExtractionError ''Input URL string is empty'')
      else
        (let url_str_with_scheme = with_scheme url_str
         in case urlparse url_str_with_scheme of
              Inl value_error \<Rightarrow>
                Inl (DomainExtractionError (''Could not parse URL: '' @ url_str_with_scheme))
            | Inr parsed_url \<Rightarrow>
                (case host_of parsed_url of
                   None \<Rightarrow>
                     Inl (DomainExtractionError
                            (''Could not extract host from parsed URL: '' @ url_str_with_scheme))
                 | Some h \<Rightarrow>
                     (let final_domain = domain_of_host h
                      in if final_domain = []
                         then Inl (DomainExtractionError
                                     (''Extracted domain is empty for URL: '' @ url_str))
                         else Inr final_domain))))"

definition urlparse_http :: "string \<Rightarrow> string + ParseResult" where
  \<comment> \<open>what the standard library's \<open>urlparse\<close> returns for an ASCII string that starts with
      \<open>http://\<close> or \<open>https://\<close> and has no bracket and no control character: \<open>netloc\<close>
      is the text after \<open>//\<close> up to the first \<open>/\<close>, \<open>?\<close> or \<open>#\<close>; \<open>hostname\<close> is what
      follows the last \<open>@\<close> of it, up to the first colon, in lower case\<close>
  "urlparse_http url =
     (let rest = (if startswith ''https://'' url then drop 8 url else drop 7 url);
          nl = takeWhile (\<lambda>c. c \<notin> set ''/?#'') rest;
          hostinfo = split_last (CHR ''@'') nl;
          hn = split_first (CHR '':'') hostinfo
      in Inr \<lparr>netloc = nl, hostname = (if hn = [] then None else Some (lower hn))\<rparr>)"

section \<open>Notions used in the statements\<close>

subsection \<open>SMTP attempts\<close>


definition reply_code_below :: "int \<Rightarrow> exn + int \<times> string \<Rightarrow> bool" where
  \<comment> \<open>the command returned a reply, and its code is below \<open>n\<close>\<close>
  "reply_code_below n r = (case r of Inr (code, msg) \<Rightarrow> code < n | Inl e \<Rightarrow> False)"


definition mail_from_accepted :: "smtp_session \<Rightarrow> bool" where
  \<comment> \<open>the attempt gets as far as the first \<open>RCPT TO\<close>: the recipient parses, \<open>connect\<close>
      and \<open>EHLO\<close> return, and \<open>MAIL FROM\<close> returns a code below 400\<close>
  "mail_from_accepted s =
     (parse_address_ok s \<and> \<not> isl (connect_reply s) \<and> \<not> isl (ehlo_reply s)
      \<and> reply_code_below 400 (mail_reply s))"

definition verified_attempt :: "smtp_session \<Rightarrow> bool" where
  \<comment> \<open>the first \<open>RCPT TO\<close> returns a code below 300, and the catch-all sample does not
      return a code below 400 (it returns a higher code, or raises)\<close>
  "verified_attempt s =
     (mail_from_accepted s \<and> reply_code_below 300 (rcpt_reply s)
      \<and> \<not> reply_code_below 400 (probe_reply s))"

subsection \<open>Candidates, scores and ranking\<close>

definition candidates_inv :: "string list \<times> string set \<Rightarrow> bool" where
  \<comment> \<open>the invariant of \<open>(all_candidates, seen_candidates)\<close>\<close>
  "candidates_inv st =
     (case st of (xs, seen) \<Rightarrow> seen = set xs \<and> distinct xs \<and> (\<forall>x \<in> set xs. lower x = x))"

text \<open>
  The confidence in the words of the specification: the base score from the provenance
  flags, the penalty for generic addresses, the adjustment by the SMTP verdict when the
  verification ran (that is, when the score before it is at least 3, or the address was
  scraped, has the name in its local part and scores more than 1), and the clamp.
\<close>

datatype verdict = Verified | Rejected | Inconclusive bool

fun verdict_of :: "bool option \<times> string \<times> bool \<Rightarrow> verdict" where
  "verdict_of (Some True, msg, catch_all) = Verified"
| "verdict_of (Some False, msg, catch_all) = Rejected"
| "verdict_of (None, msg, catch_all) = Inconclusive catch_all"

definition spec_base_confidence :: "bool \<Rightarrow> bool \<Rightarrow> bool \<Rightarrow> bool \<Rightarrow> bool \<Rightarrow> int" where
  "spec_base_confidence is_pattern is_scraped generic matches_primary_domain name_in_local =
     (let c = (if is_pattern \<and> name_in_local then 3 else 0)
              + (if is_scraped \<and> name_in_local then 5 else 0)
              + (if is_scraped \<and> \<not> name_in_local then 2 else 0)
              + (if is_pattern \<and> \<not> name_in_local then 1 else 0)
              + (if matches_primary_domain then 1 else 0)
      in if generic \<and> name_in_local \<and> c > 1 then max 1 (c - 5)
         else if generic \<and> \<not> name_in_local \<and> c > 2 then max 1 (c - 2)
         else c)"

definition spec_confidence :: "bool \<Rightarrow> bool \<Rightarrow> bool \<Rightarrow> bool \<Rightarrow> bool \<Rightarrow> verdict \<Rightarrow> int" where
  "spec_confidence is_pattern is_scraped generic matches_primary_domain name_in_local v =
     (let c = spec_base_confidence is_pattern is_scraped generic matches_primary_domain name_in_local;
          smtp_ran = (c \<ge> 3 \<or> (is_scraped \<and> name_in_local \<and> c > 1));
          c' = (if smtp_ran
                then (case v of
                        Verified \<Rightarrow> c + 5
                      | Rejected \<Rightarrow> 0
                      | Inconclusive catch_all \<Rightarrow> if catch_all then c + 0 else c + 1)
                else c)
      in max 0 (min 10 c'))"

definition ranked_before :: "FoundEmailData \<Rightarrow> FoundEmailData \<Rightarrow> bool" where
  \<comment> \<open>\<open>a\<close> may stand before \<open>b\<close> in the order (confidence descending, non-generic before
      generic, scraped before pattern)\<close>
  "ranked_before a b =
     (confidence a > confidence b
      \<or> (confidence a = confidence b
          \<and> ((\<not> is_generic a \<and> is_generic b)
              \<or> (is_generic a = is_generic b
                  \<and> (source a = ''scraped'' \<or> source b \<noteq> ''scraped'')))))"

subsection \<open>The events of a discovery\<close>

text \<open>
  A run is paced when every verification belongs to the candidate announced just before
  it and is followed directly by a sleep, and a sleep occurs nowhere else.
\<close>

fun paced :: "beacon_event list \<Rightarrow> bool" where
  "paced [] = True"
| "paced (Assessing e # SmtpVerification e' evs # BeaconSleep d # rest) = (e' = e \<and> paced rest)"
| "paced (Assessing e # rest) = paced rest"
| "paced (ev # rest) = False"

fun sleep_within :: "rat \<Rightarrow> rat \<Rightarrow> beacon_event \<Rightarrow> bool" where
  "sleep_within lo hi (BeaconSleep d) = (lo \<le> d \<and> d \<le> hi)"
| "sleep_within lo hi ev = True"

definition run_summary ::
  "exn + EmailResult \<times> beacon_event list
     \<Rightarrow> ((string \<times> int \<times> bool \<times> string) list \<times> string option \<times> int \<times> beacon_event) option" where
  \<comment> \<open>of a run that returned: email, confidence, \<open>is_generic\<close> and message of each found
      record, the selection, and the last event\<close>
  "run_summary r =
     (case r of
        Inl ex \<Rightarrow> None
      | Inr (res, tr) \<Rightarrow>
          Some (map (\<lambda>x. (email x, confidence x, is_generic x, verification_message x))
                  (found_emails res),
                most_likely_email res, confidence_score res, last tr))"

definition found_scores ::
  "exn + EmailResult \<times> beacon_event list
     \<Rightarrow> ((string \<times> int \<times> bool option) list \<times> string list) option" where
  \<comment> \<open>of a run that returned: email, confidence and \<open>verification_status\<close> of each found
      record, and the distinct verification messages\<close>
  "found_scores r =
     (case r of
        Inl ex \<Rightarrow> None
      | Inr (res, tr) \<Rightarrow>
          Some (map (\<lambda>x. (email x, confidence x, verification_status x)) (found_emails res),
                remdups (map verification_message (found_emails res))))"

section \<open>Example worlds\<close>

text \<open>Concrete settings, DNS answers and SMTP sessions, for the examples below.\<close>

definition example_email_match :: "string \<Rightarrow> bool" where
  \<comment> \<open>a stand-in for the configured pattern: a local part, an \<open>@\<close>, a domain with a dot\<close>
  "example_email_match e =
     (case split_once (CHR ''@'') e of
        None \<Rightarrow> False
      | Some (l, d) \<Rightarrow> l \<noteq> [] \<and> CHR ''.'' \<in> set d \<and> CHR ''@'' \<notin> set d)"

definition example_settings :: Settings where
  "example_settings =
     \<lparr>email_regex = example_email_match,
      generic_email_prefixes = set [''info'', ''contact'', ''sales'', ''support''],
      confidence_threshold = 4,
      generic_confidence_threshold = 7,
      sleep_between_requests = (1 / 10, 1 / 2),
      max_verification_attempts = 2,
      smtp_sender_email = ''verify-probe@example.com''\<rparr>"

definition null_mx_dns :: dns_world where
  \<comment> \<open>the MX answer is the single record \<open>0 .\<close>; the A query answers with an address\<close>
  "null_mx_dns =
     \<lparr>mx_query = (\<lambda>d. Answer [\<lparr>host = ''.'', priority = 0\<rparr>]),
      a_query = (\<lambda>k d. Answer [''192.0.2.10''])\<rparr>"

definition nxdomain_dns :: dns_world where
  \<comment> \<open>every query fails with the resolver's "not found" error\<close>
  "nxdomain_dns =
     \<lparr>mx_query = (\<lambda>d. AresError ARES_ENOTFOUND ''Domain name not found''),
      a_query = (\<lambda>k d. AresError ARES_ENOTFOUND ''Domain name not found'')\<rparr>"

definition example_dns :: dns_world where
  "example_dns =
     \<lparr>mx_query = (\<lambda>d. Answer [\<lparr>host = ''mx2.example.com.'', priority = 20\<rparr>,
                                \<lparr>host = ''mx1.example.com.'', priority = 10\<rparr>]),
      a_query = (\<lambda>k d. Answer [''192.0.2.10''])\<rparr>"

definition session_replying :: "exn + int \<times> string \<Rightarrow> exn + int \<times> string \<Rightarrow> exn + int \<times> string \<Rightarrow> smtp_session" where
  \<comment> \<open>a session that connects and greets, in which the server responds as given to
      \<open>MAIL FROM\<close>, to the first and to the second \<open>RCPT TO\<close>\<close>
  "session_replying mail_r rcpt_r probe_r =
     \<lparr>parse_address_ok = True, connect_reply = Inr (), ehlo_reply = Inr (),
      mail_reply = aiosmtplib_mail mail_r, rcpt_reply = aiosmtplib_rcpt rcpt_r,
      probe_reply = aiosmtplib_rcpt probe_r,
      is_connected = True, choice_draw = (\<lambda>i. 7 * i + 3), uniform_draw = 1 / 2\<rparr>"

definition nxdomain_world :: smtp_world where
  \<comment> \<open>the domain does not exist; the mail server, were it reached, would accept the address\<close>
  "nxdomain_world =
     \<lparr>dns = nxdomain_dns,
      sessions = (\<lambda>k. session_replying (Inr (250, ''OK'')) (Inr (250, ''OK''))
                         (Inr (550, ''No such user'')))\<rparr>"

definition example_mx :: MailServer where
  "example_mx = \<lparr>exchange = ''mx1.example.com'', preference = 10\<rparr>"

definition retry_world :: smtp_world where
  \<comment> \<open>the first attempt's catch-all sample is accepted; the second attempt's sample times out\<close>
  "retry_world =
     \<lparr>dns = example_dns,
      sessions = (\<lambda>k. if k = 0
                       then session_replying (Inr (250, ''OK'')) (Inr (250, ''OK'')) (Inr (250, ''OK''))
                       else session_replying (Inr (250, ''OK'')) (Inr (250, ''OK'')) (Inl TimeoutError))\<rparr>"

definition sender_refused_world :: smtp_world where
  \<comment> \<open>the server responds to \<open>MAIL FROM\<close> with 550\<close>
  "sender_refused_world =
     \<lparr>dns = example_dns,
      sessions = (\<lambda>k. session_replying (Inr (550, ''Sender address rejected'')) (Inr (250, ''OK''))
                         (Inr (550, ''No such user'')))\<rparr>"

definition example_validate_email :: "string \<Rightarrow> string option" where
  \<comment> \<open>a stand-in for the validator on lower-case ASCII addresses: it refuses an address
      without a local part or without a dotted domain, and one whose local part has an
      empty atom (a dot at its start or end, or two dots in a row); the others it returns
      as they are\<close>
  "example_validate_email e =
     (case split_once (CHR ''@'') e of
        None \<Rightarrow> None
      | Some (l, d) \<Rightarrow>
          if l = [] \<or> CHR ''.'' \<notin> set d \<or> CHR ''@'' \<in> set d
             \<or> startswith ''.'' l \<or> endswith ''.'' l \<or> str_in ''..'' l
          then None else Some e)"

definition acme_world :: beacon_world where
  \<comment> \<open>the site publishes two addresses; the mail server accepts \<open>j.smith\<close> only\<close>
  "acme_world =
     \<lparr>scrape_website_for_emails = (\<lambda>url. Inr [''info@acme.com'', ''j.smith@acme.com'']),
      smtp_worlds = (\<lambda>e. \<lparr>dns = example_dns,
                            sessions = (\<lambda>k. session_replying (Inr (250, ''OK''))
                                (if e = ''j.smith@acme.com'' then Inr (250, ''OK'')
                                 else Inr (550, ''No such user''))
                                (Inr (550, ''No such user'')))\<rparr>),
      sleep_draw = (\<lambda>k. 1 / 4),
      validate_email = example_validate_email\<rparr>"

definition timeout_dns :: dns_world where
  \<comment> \<open>every query runs into the timeout\<close>
  "timeout_dns = \<lparr>mx_query = (\<lambda>d. WaitTimeout), a_query = (\<lambda>k d. WaitTimeout)\<rparr>"

definition unresolved_world :: beacon_world where
  \<comment> \<open>the site publishes no address, and the DNS queries for the domain time out\<close>
  "unresolved_world =
     \<lparr>scrape_website_for_emails = (\<lambda>url. Inr []),
      smtp_worlds = (\<lambda>e. \<lparr>dns = timeout_dns,
                            sessions = (\<lambda>k. session_replying (Inr (250, ''OK'')) (Inr (250, ''OK''))
                                               (Inr (550, ''No such user'')))\<rparr>),
      sleep_draw = (\<lambda>k. 1 / 4),
      validate_email = example_validate_email\<rparr>"

section \<open>Facts about strings\<close>

lemma lower_char_idem: "lower_char (lower_char c) = lower_char c"
proof -
  have "of_char (char_of (of_char c + 32 :: nat)) = (of_char c + 32 :: nat)"
    if "(of_char c :: nat) \<le> 90"
    using that by (simp add: take_bit_eq_mod)
  then show ?thesis
    by (auto simp: lower_char_def Let_def)
qed

lemma lower_idem: "lower (lower s) = lower s"
  by (simp add: lower_def lower_char_idem)

lemma lower_char_colon: "lower_char c = CHR '':'' \<longleftrightarrow> c = CHR '':''"
proof -
  have a: "of_char (CHR '':'') = (58::nat)" by simp
  have "lower_char c \<noteq> CHR '':''" if "65 \<le> (of_char c :: nat)" "(of_char c :: nat) \<le> 90"
  proof
    assume "lower_char c = CHR '':''"
    then have "char_of (of_char c + 32 :: nat) = CHR '':''" using that by (simp add: lower_char_def)
    then have "of_char (char_of (of_char c + 32 :: nat) :: char) = (58 :: nat)" using a by simp
    then show False using that by (simp add: take_bit_eq_mod)
  qed
  moreover have "c \<noteq> CHR '':''" if "65 \<le> (of_char c :: nat)"
    using that a by auto
  ultimately show ?thesis by (auto simp: lower_char_def Let_def)
qed

lemma colon_in_lower: "CHR '':'' \<in> set (lower s) \<longleftrightarrow> CHR '':'' \<in> set s"
  by (simp add: lower_def image_iff) (metis lower_char_colon)

section \<open>DNS resolution\<close>

text \<open>
  What \<open>resolve_mail_server\<close> does, case by case: the most preferred MX record with a
  non-empty exchange is returned (trailing dots stripped); NoData on the MX query leads
  to the A record with preference 65535; NXDOMAIN, timeouts and other resolver errors are
  raised as \<open>NxDomainError\<close>, \<open>DnsTimeoutError\<close> and \<open>DnsError\<close>; and every exception it
  raises is a \<open>DnsError\<close>. An empty exchange in the most preferred record leads to the A
  record fallback.
\<close>

lemma sort_key_eq_Nil: "sort_key f xs = [] \<longleftrightarrow> xs = []"
  by (metis length_0_conv length_sort)

lemma sort_key_head_least:
  assumes "sort_key f xs = b # rest"
  shows "\<forall>x \<in> set xs. f b \<le> f x"
proof -
  have "sorted (map f (sort_key f xs))" by (rule sorted_sort_key)
  then have "\<forall>x \<in> set rest. f b \<le> f x" using assms by auto
  moreover have "set xs = set (b # rest)" using assms by (metis set_sort)
  ultimately show ?thesis by auto
qed

lemma resolve_mail_server_best_mx:
  assumes "mx_query w d = Answer rs" "sort_key priority rs = best # rest"
    and "rstrip (CHR ''.'') (host best) \<noteq> []"
  shows "resolve_mail_server w d
           = Inr \<lparr>exchange = rstrip (CHR ''.'') (host best), preference = priority best\<rparr>
         \<and> best \<in> set rs \<and> (\<forall>r \<in> set rs. priority best \<le> priority r)"
proof -
  have ne: "rs \<noteq> []" using assms(2) by auto
  have "best \<in> set (sort_key priority rs)" using assms(2) by simp
  then have mem: "best \<in> set rs" by simp
  have "resolve_mail_server w d
           = Inr \<lparr>exchange = rstrip (CHR ''.'') (host best), preference = priority best\<rparr>"
    using assms ne
    by (simp add: resolve_mail_server_def resolve_mail_server_try_def query_with_timeout_def Let_def)
  with mem sort_key_head_least[OF assms(2)] show ?thesis by blast
qed

lemma resolve_mail_server_no_data:
  assumes "mx_query w d = AresError ARES_ENODATA txt" "\<not> str_in ''NXDOMAIN'' txt"
    and "a_query w 0 d = Answer (a # as)"
  shows "resolve_mail_server w d = Inr \<lparr>exchange = a, preference = 65535\<rparr>"
  using assms
  by (simp add: resolve_mail_server_def resolve_mail_server_try_def query_with_timeout_def
      resolve_a_record_fallback_def ARES_ENODATA_def ARES_ENOTFOUND_def)

lemma resolve_mail_server_nxdomain:
  assumes "mx_query w d = AresError code txt" "code = ARES_ENOTFOUND \<or> str_in ''NXDOMAIN'' txt"
  shows "resolve_mail_server w d = Inl (NxDomainError d)"
  using assms
  by (auto simp: resolve_mail_server_def resolve_mail_server_try_def query_with_timeout_def)

lemma resolve_mail_server_timeout:
  assumes "mx_query w d = WaitTimeout \<or> (mx_query w d = AresError ARES_ETIMEOUT txt \<and> \<not> str_in ''NXDOMAIN'' txt)"
  shows "resolve_mail_server w d = Inl (DnsTimeoutError d)"
  using assms
  by (auto simp: resolve_mail_server_def resolve_mail_server_try_def query_with_timeout_def
      ARES_ENODATA_def ARES_ENOTFOUND_def ARES_ETIMEOUT_def)

lemma resolve_mail_server_other_error:
  assumes "mx_query w d = AresError code txt" "code \<noteq> ARES_ENOTFOUND" "\<not> str_in ''NXDOMAIN'' txt"
    "code \<noteq> ARES_ENODATA" "code \<noteq> ARES_ETIMEOUT"
  shows "\<exists>m. resolve_mail_server w d = Inl (DnsError m)"
  using assms
  by (simp add: resolve_mail_server_def resolve_mail_server_try_def query_with_timeout_def)

lemma resolve_mail_server_empty_exchange:
  assumes "mx_query w d = Answer rs" "sort_key priority rs = best # rest"
    and "rstrip (CHR ''.'') (host best) = []"
  shows "resolve_mail_server w d = resolve_a_record_fallback w 0 d"
proof -
  have ne: "rs \<noteq> []" using assms(2) by auto
  show ?thesis
    using assms ne
    by (simp add: resolve_mail_server_def resolve_mail_server_try_def query_with_timeout_def Let_def)
qed

lemma resolve_mail_server_raises_dns_error:
  "resolve_mail_server w d = Inl e \<Longrightarrow> isinstance_DnsError e"
  by (auto simp: resolve_mail_server_def resolve_mail_server_try_def query_with_timeout_def
      resolve_a_record_fallback_def Let_def sort_key_eq_Nil
      split: query_outcome.splits if_splits list.splits exn.splits sum.splits prod.splits)

text \<open>
  C6. \<open>resolve_mail_server\<close> is to raise \<open>NoDnsRecordsError\<close> when the exchange of the
  most preferred MX record is empty. The function raises it inside its own \<open>try\<close>, whose
  handler for \<open>NoDnsRecordsError\<close> then runs the A record fallback: for a domain whose
  only MX record is \<open>0 .\<close> and which has an A record, the A address is returned with
  preference 65535 and nothing is raised.
\<close>

theorem resolve_mail_server_empty_exchange_falls_back:
  "resolve_mail_server null_mx_dns ''example.org''
     = Inr \<lparr>exchange = ''192.0.2.10'', preference = 65535\<rparr>"
  by code_simp

section \<open>SMTP verification when DNS resolution fails\<close>

lemma get_mail_server_failure:
  "resolve_mail_server w d = Inl e \<Longrightarrow> get_mail_server w d = Inl (NameError ''DnsError'')"
  by (simp add: get_mail_server_def smtp_utils_globals_def)

lemma verify_email_with_retries_dns_failure:
  "resolve_mail_server (dns w) (split_last (CHR ''@'') e) = Inl ex
   \<Longrightarrow> verify_email_with_retries settings w e = (Inl (NameError ''DnsError''), [])"
  by (simp add: verify_email_with_retries_def get_mail_server_failure)

text \<open>
  C1. When the domain's mail server cannot be resolved, \<open>verify_email_with_retries\<close> is
  to return \<open>(None, "SMTP check skipped (DNS lookup failed)", False)\<close>. The handler in
  \<open>_get_mail_server\<close> names \<open>DnsError\<close>, which \<open>smtp_utils.py\<close> never imports, so
  evaluating the handler's class tuple raises \<open>NameError\<close>, and the verifier raises it
  to its caller: for a domain that does not exist no triple is returned (and no SMTP
  command is issued).
\<close>

theorem verify_email_dns_failure_raises_name_error:
  "verify_email_with_retries example_settings nxdomain_world ''john.doe@nxdomain.test''
     = (Inl (NameError ''DnsError''), [])"
  by code_simp

section \<open>One SMTP attempt\<close>

lemma except_not_verified:
  "verify_single_attempt_except ex = Inr r \<Longrightarrow> exists r = None"
  by (auto simp: verify_single_attempt_except_def inconclusive_retry_def inconclusive_no_retry_def
      Let_def split: exn.splits if_splits)

lemma interpret_rcpt_verified_iff:
  "exists (interpret_rcpt tc tm ca) = Some True \<longleftrightarrow> tc < 300 \<and> \<not> ca"
  by (simp add: interpret_rcpt_def inconclusive_retry_def conclusive_def Let_def)

lemma interpret_rcpt_catch_all:
  "tc < 300 \<Longrightarrow>
   interpret_rcpt tc tm True
     = inconclusive_retry (''SMTP accepted (Possible Catch-All): '' @ str_int tc @ '' '' @ tm) True"
  by (simp add: interpret_rcpt_def)

lemma attempt_verified_iff:
  "(\<exists>r. fst (verify_single_attempt settings s e d ms) = Inr r \<and> exists r = Some True)
     \<longleftrightarrow> verified_attempt s"
  apply (cases "connect_reply s"; cases "ehlo_reply s"; cases "mail_reply s"; cases "rcpt_reply s"; cases "probe_reply s")
  apply (auto simp: verify_single_attempt_def verify_single_attempt_try_def verified_attempt_def
      mail_from_accepted_def reply_code_below_def catch_all_probe_def Let_def conclusive_def
      inconclusive_retry_def inconclusive_no_retry_def interpret_rcpt_verified_iff
      dest: except_not_verified split: if_splits prod.splits sum.splits)
  done

lemma attempt_catch_all:
  assumes "mail_from_accepted s" "reply_code_below 300 (rcpt_reply s)"
    "reply_code_below 400 (probe_reply s)"
  shows "\<exists>r. fst (verify_single_attempt settings s e d ms) = Inr r \<and> exists r = None
             \<and> should_retry r \<and> is_catch_all r"
  using assms
  apply (cases "connect_reply s"; cases "ehlo_reply s"; cases "mail_reply s"; cases "rcpt_reply s"; cases "probe_reply s")
  apply (auto simp: verify_single_attempt_def verify_single_attempt_try_def
      mail_from_accepted_def reply_code_below_def catch_all_probe_def Let_def
      inconclusive_retry_def interpret_rcpt_catch_all split: if_splits prod.splits sum.splits)
  done






lemma client_session_rest:
  "parse_address_ok (client_session s a b c) = parse_address_ok s"
  "connect_reply (client_session s a b c) = connect_reply s"
  "ehlo_reply (client_session s a b c) = ehlo_reply s"
  "is_connected (client_session s a b c) = is_connected s"
  "choice_draw (client_session s a b c) = choice_draw s"
  "mail_reply (client_session s a b c) = aiosmtplib_mail a"
  "rcpt_reply (client_session s a b c) = aiosmtplib_rcpt b"
  "probe_reply (client_session s a b c) = aiosmtplib_rcpt c"
  by (simp_all add: client_session_def)




lemma refused_sender_attempt:
  assumes "parse_address_ok s" "connect_reply s = Inr u" "ehlo_reply s = Inr u'" "code \<noteq> 250"
  shows "\<exists>r. verify_single_attempt settings (client_session s (Inr (code, msg)) b c) e d ms
               = (Inr r,
                  [SmtpConnect (exchange ms), SmtpEhlo ''localhost'',
                   SmtpMailFrom (smtp_sender_email settings)]
                  @ (if is_connected s then [SmtpQuit] else []))
             \<and> exists r = None \<and> should_retry r"
  using assms
  by (simp add: verify_single_attempt_def verify_single_attempt_try_def client_session_rest
      aiosmtplib_mail_def verify_single_attempt_except_def inconclusive_retry_def Let_def)

section \<open>The retry loop\<close>

lemma attempts_loop_verified:
  assumes "attempts_loop settings sess e d ms k left vars tr = ((Some True, m, ca), tr')"
    and "fst vars \<noteq> Some True"
  shows "\<exists>j. k \<le> j \<and> j < k + left \<and> verified_attempt (sess j) \<and> \<not> ca"
  using assms
proof (induction left arbitrary: k vars tr)
  case 0
  then show ?case by (cases vars) auto
next
  case (Suc left)
  obtain lr lm lc where vars: "vars = (lr, lm, lc)" by (cases vars) auto
  obtain res tr1 where att: "verify_single_attempt settings (sess k) e d ms = (res, tr1)"
    by (cases "verify_single_attempt settings (sess k) e d ms") auto
  show ?case
  proof (cases res)
    case (Inl ex)
    with Suc.prems vars att show ?thesis by (auto split: if_splits)
  next
    case (Inr result)
    show ?thesis
    proof (cases "exists result = None \<and> should_retry result")
      case True
      let ?tr2 = "(if int k < max_verification_attempts settings - 1 \<and> exists result = None
                        then [Sleep (sleep_duration settings (uniform_draw (sess k)))]
                        else [])"
      from Suc.prems(1) vars att Inr True
      have "attempts_loop settings sess e d ms (Suc k) left
              (exists result, message result, is_catch_all result) (tr @ tr1 @ ?tr2)
            = ((Some True, m, ca), tr')"
        by (simp add: Let_def)
      from Suc.IH[OF this] True obtain j where "Suc k \<le> j" "j < Suc k + left"
        "verified_attempt (sess j)" "\<not> ca" by auto
      then show ?thesis by (intro exI[of _ j]) auto
    next
      case False
      with Suc.prems(1) vars att Inr
      have r: "exists result = Some True" "is_catch_all result = ca"
        by (auto split: if_splits)
      with att Inr have v: "verified_attempt (sess k)"
        using attempt_verified_iff[of settings "sess k" e d ms] by auto
      have "\<not> is_catch_all result"
        using att Inr r(1)
        apply (cases "connect_reply (sess k)"; cases "ehlo_reply (sess k)"; cases "mail_reply (sess k)"; cases "rcpt_reply (sess k)")
        apply (auto simp: verify_single_attempt_def verify_single_attempt_try_def Let_def conclusive_def
            inconclusive_retry_def inconclusive_no_retry_def interpret_rcpt_def
            dest: except_not_verified split: if_splits prod.splits sum.splits)
        done
      with v r show ?thesis by (intro exI[of _ k]) auto
    qed
  qed
qed

lemma verify_email_verified:
  assumes "verify_email_with_retries settings w e = (Inr (Some True, m, ca), tr)"
  shows "\<exists>j. int j < max_verification_attempts settings \<and> verified_attempt (sessions w j) \<and> \<not> ca"
proof -
  from assms obtain ms where
    "attempts_loop settings (sessions w) e (split_last (CHR ''@'') e) ms 0
       (nat (max_verification_attempts settings))
       (None, ''SMTP check did not run or complete'', False) [] = ((Some True, m, ca), tr)"
    by (auto simp: verify_email_with_retries_def Let_def split: sum.splits option.splits prod.splits)
  from attempts_loop_verified[OF this] obtain j where
    "j < nat (max_verification_attempts settings)" "verified_attempt (sessions w j)" "\<not> ca"
    by auto
  then show ?thesis by (intro exI[of _ j]) auto
qed

section \<open>Catch-all sampling and the verified verdict\<close>

text \<open>
  C4 says that a run in which the catch-all sample is accepted never ends verified. What
  holds is narrower. Within one attempt, the attempt is verified exactly when the first
  \<open>RCPT TO\<close> returned a code below 300 and the sample did not return a code below 400; so
  an attempt whose sample is accepted is never verified, and when the first \<open>RCPT TO\<close>
  returned a code below 300 it is an inconclusive, retriable result with
  \<open>is_catch_all\<close> set. \<open>verify_email_with_retries\<close> returns verified only if one of its
  attempts was verified in this sense, and then reports no catch-all. A sample that
  is accepted makes the attempt retriable, and a sample that raises is ignored, so a later
  attempt can still verify the address.
\<close>

theorem catch_all_sample_and_verified_verdict:
  "((\<exists>r. fst (verify_single_attempt settings s e d ms) = Inr r \<and> exists r = Some True)
      \<longleftrightarrow> verified_attempt s)
   \<and> (mail_from_accepted s \<and> reply_code_below 300 (rcpt_reply s)
        \<and> reply_code_below 400 (probe_reply s)
      \<longrightarrow> (\<exists>r. fst (verify_single_attempt settings s e d ms) = Inr r \<and> exists r = None
               \<and> should_retry r \<and> is_catch_all r))
   \<and> (verify_email_with_retries settings w e = (Inr (Some True, m, ca), tr)
      \<longrightarrow> \<not> ca \<and> (\<exists>j. int j < max_verification_attempts settings
                        \<and> verified_attempt (sessions w j)))"
  using attempt_verified_iff[of settings s e d ms] attempt_catch_all[of s settings e d ms]
    verify_email_verified[of settings w e m ca tr]
  by blast

text \<open>
  A run against C4 as stated: the first attempt's sample is accepted with 250, the attempt
  is retried, the second attempt's sample times out (it is neither accepted nor rejected),
  and the verifier returns verified.
\<close>

theorem retry_after_catch_all_verifies:
  "reply_code_below 400 (probe_reply (sessions retry_world 0))
   \<and> \<not> reply_code_below 400 (probe_reply (sessions retry_world 1))
   \<and> probe_reply (sessions retry_world 1) = Inl TimeoutError
   \<and> fst (verify_email_with_retries example_settings retry_world ''john.doe@example.com'')
       = Inr (Some True, ''SMTP Verification OK: 250 OK'', False)"
  by code_simp

theorem catch_all_sample_and_verified_verdict_witness:
  "(\<exists>r. fst (verify_single_attempt example_settings (sessions retry_world 0)
              ''john.doe@example.com'' ''example.com'' example_mx) = Inr r
        \<and> exists r = None \<and> should_retry r \<and> is_catch_all r)
   \<and> (\<exists>j. int j < max_verification_attempts example_settings
          \<and> verified_attempt (sessions retry_world j))"
proof -
  have a: "mail_from_accepted (sessions retry_world 0)
           \<and> reply_code_below 300 (rcpt_reply (sessions retry_world 0))
           \<and> reply_code_below 400 (probe_reply (sessions retry_world 0))"
    by code_simp
  have b: "verify_email_with_retries example_settings retry_world ''john.doe@example.com''
           = (Inr (Some True, ''SMTP Verification OK: 250 OK'', False),
              snd (verify_email_with_retries example_settings retry_world ''john.doe@example.com''))"
    by code_simp
  from catch_all_sample_and_verified_verdict[of example_settings "sessions retry_world 0"
      "''john.doe@example.com''" "''example.com''" example_mx retry_world
      "''SMTP Verification OK: 250 OK''" False
      "snd (verify_email_with_retries example_settings retry_world ''john.doe@example.com'')"]
    a b
  show ?thesis by blast
qed

section \<open>The second RCPT TO\<close>




section \<open>MAIL FROM rejected\<close>

text \<open>
  C10. A server that refuses the sender responds to \<open>MAIL FROM\<close> with a code of 400 or
  more. The branch \<open>if code >= 400\<close> that returns the non-retriable result
  \<open>MAIL FROM rejected\<close> reads the value \<open>mail\<close> returns, but \<open>mail\<close> returns only
  a response with code 250 and raises for any other: the refusal reaches the handler of
  \<open>SMTPResponseException\<close>, whose results are all retriable. With the response 550
  the attempt is retriable, and the verifier sleeps and makes a second attempt; no
  \<open>RCPT TO\<close> is issued.
\<close>

theorem refused_mail_from_is_retried:
  "fst (verify_single_attempt example_settings
          (session_replying (Inr (550, ''Sender address rejected'')) (Inr (250, ''OK''))
             (Inr (550, ''No such user'')))
          ''john.doe@example.com'' ''example.com'' example_mx)
     = Inr (inconclusive_retry ''SMTP Perm Failure? (5xx): 550 Sender address rejected'' False)
   \<and> verify_email_with_retries example_settings sender_refused_world ''john.doe@example.com''
     = (Inr (None, ''SMTP Perm Failure? (5xx): 550 Sender address rejected'', False),
        [SmtpConnect ''mx1.example.com'', SmtpEhlo ''localhost'',
         SmtpMailFrom ''verify-probe@example.com'', SmtpQuit, Sleep (3 / 10),
         SmtpConnect ''mx1.example.com'', SmtpEhlo ''localhost'',
         SmtpMailFrom ''verify-probe@example.com'', SmtpQuit])"
  by code_simp

section \<open>The candidate list\<close>

lemma add_candidate_inv: "candidates_inv st \<Longrightarrow> candidates_inv (add_candidate e st)"
  by (cases st) (auto simp: candidates_inv_def add_candidate_def Let_def lower_idem)

lemma fold_add_candidate_inv: "candidates_inv st \<Longrightarrow> candidates_inv (fold add_candidate es st)"
  by (induction es arbitrary: st) (auto simp: add_candidate_inv)

lemma candidates_inv_fst:
  "candidates_inv st \<Longrightarrow> distinct (fst st) \<and> (\<forall>x \<in> set (fst st). lower x = x)"
  by (cases st) (simp add: candidates_inv_def)

lemma combine_candidates_inv:
  "distinct (combine_candidates fl ll gp se) \<and> (\<forall>x \<in> set (combine_candidates fl ll gp se). lower x = x)"
proof -
  have "candidates_inv ([], {})" by (simp add: candidates_inv_def)
  then show ?thesis
    unfolding combine_candidates_def Let_def
    by (intro candidates_inv_fst fold_add_candidate_inv)
qed

lemma combine_candidates_distinct_lower: "distinct (map lower (combine_candidates fl ll gp se))"
proof -
  have "map lower (combine_candidates fl ll gp se) = combine_candidates fl ll gp se"
    using combine_candidates_inv[of fl ll gp se] by (simp add: map_idI)
  then show ?thesis using combine_candidates_inv[of fl ll gp se] by simp
qed

section \<open>One candidate\<close>

lemma sleep_duration_bounds:
  assumes "sleep_between_requests settings = (lo, hi)" "lo \<le> hi" "0 \<le> u" "u \<le> 1"
  shows "lo \<le> sleep_duration settings u \<and> sleep_duration settings u \<le> hi"
proof (cases "hi > lo")
  case True
  have a: "0 \<le> (hi - lo) * u" using True assms by simp
  have "(hi - lo) * u \<le> (hi - lo) * 1" using True assms by (intro mult_left_mono) auto
  then have b: "(hi - lo) * u \<le> hi - lo" by simp
  have c: "lo + (hi - lo) * u \<le> hi" using b by linarith
  have d: "lo \<le> lo + (hi - lo) * u" using a by linarith
  show ?thesis using c d True assms by (simp add: sleep_duration_def uniform_def)
next
  case False
  then show ?thesis using assms by (simp add: sleep_duration_def)
qed

lemma score_and_verify_cases:
  assumes "score_and_verify settings w e s p g m n st1 = Inr st'"
  shows "\<exists>rs evs. verified_emails_data st' = verified_emails_data st1 @ rs
           \<and> (\<forall>r \<in> set rs. 0 < confidence r \<and> confidence r \<le> 10)
           \<and> (trace st' = trace st1
                \<or> trace st' = trace st1 @ [SmtpVerification e evs,
                       BeaconSleep (sleep_duration settings (sleep_draw w (sleeps st1)))])"
proof -
  obtain r evs where run: "verify_email_with_retries settings (smtp_worlds w e) e = (r, evs)"
    by fastforce
  obtain c' status msg where
    av: "after_verification (generic_penalty g n (base_confidence p s n m)) r = (c', status, msg)"
    by (metis prod_cases3)
  show ?thesis
  proof (cases "should_verify_smtp (generic_penalty g n (base_confidence p s n m)) s n")
    case True
    with assms run av show ?thesis
      by (auto simp: score_and_verify_def Let_def split: if_splits option.splits)
  next
    case False
    with assms show ?thesis
      by (auto simp: score_and_verify_def Let_def split: if_splits option.splits)
  qed
qed

lemma assess_candidate_cases:
  assumes "assess_candidate settings w fl ll domain gp se e st = Inr st'"
  shows "st' = st \<or> st' = st\<lparr>trace := trace st @ [Assessing e]\<rparr>
         \<or> (\<exists>s p g m n. score_and_verify settings w e s p g m n
                              (st\<lparr>trace := trace st @ [Assessing e]\<rparr>) = Inr st')"
  using assms unfolding assess_candidate_def Let_def
  by (simp split: if_splits option.splits prod.splits) blast+

lemma assess_candidate_data:
  assumes "assess_candidate settings w fl ll domain gp se e st = Inr st'"
  shows "\<exists>rs. verified_emails_data st' = verified_emails_data st @ rs
              \<and> (\<forall>r \<in> set rs. 0 < confidence r \<and> confidence r \<le> 10)"
proof -
  from assess_candidate_cases[OF assms] consider
    "st' = st" | "st' = st\<lparr>trace := trace st @ [Assessing e]\<rparr>"
    | s p g m n where "score_and_verify settings w e s p g m n
                         (st\<lparr>trace := trace st @ [Assessing e]\<rparr>) = Inr st'"
    by blast
  then show ?thesis
  proof cases
    case 1
    then show ?thesis by simp
  next
    case 2
    then show ?thesis by simp
  next
    case 3
    from score_and_verify_cases[OF 3] show ?thesis by auto
  qed
qed

lemma assess_candidate_trace:
  assumes "assess_candidate settings w fl ll domain gp se e st = Inr st'"
  shows "trace st' = trace st
         \<or> trace st' = trace st @ [Assessing e]
         \<or> (\<exists>evs. trace st' = trace st @ [Assessing e, SmtpVerification e evs,
                          BeaconSleep (sleep_duration settings (sleep_draw w (sleeps st)))])"
proof -
  from assess_candidate_cases[OF assms] consider
    "st' = st" | "st' = st\<lparr>trace := trace st @ [Assessing e]\<rparr>"
    | s p g m n where "score_and_verify settings w e s p g m n
                         (st\<lparr>trace := trace st @ [Assessing e]\<rparr>) = Inr st'"
    by blast
  then show ?thesis
  proof cases
    case 1
    then show ?thesis by simp
  next
    case 2
    then show ?thesis by simp
  next
    case 3
    from score_and_verify_cases[OF 3] show ?thesis by auto
  qed
qed

lemma spec_base_confidence_eq:
  "generic_penalty g n (base_confidence p s n m) = spec_base_confidence p s g m n"
  by (simp add: generic_penalty_def base_confidence_def spec_base_confidence_def Let_def)

lemma after_verification_returned:
  "fst (after_verification c (Inr v)) =
     (case verdict_of v of
        Verified \<Rightarrow> c + 5
      | Rejected \<Rightarrow> 0
      | Inconclusive catch_all \<Rightarrow> if catch_all then c + 0 else c + 1)"
  by (cases v rule: verdict_of.cases) (simp_all add: after_verification_def)

lemma after_verification_raised: "fst (after_verification c (Inl ex)) = c"
  by (simp add: after_verification_def)

text \<open>
  The records of one iteration, as pairs of address and confidence: those before it,
  and the candidate's pair when the confidence \<open>c\<close> is positive; building the record
  raises when the address does not validate.
\<close>

lemma score_and_verify_stores:
  assumes "should_verify_smtp (spec_base_confidence p s g m n) s n
           \<Longrightarrow> fst (after_verification (spec_base_confidence p s g m n)
                       (fst (verify_email_with_retries settings (smtp_worlds w e) e))) = c'"
    and "\<not> should_verify_smtp (spec_base_confidence p s g m n) s n
           \<Longrightarrow> c' = spec_base_confidence p s g m n"
  shows "map_sum id (\<lambda>st'. map (\<lambda>r. (email r, confidence r)) (verified_emails_data st'))
           (score_and_verify settings w e s p g m n st)
         = (if max 0 (min 10 c') > 0
            then (case validate_email w e of
                    None \<Rightarrow> Inl (ValidationError e)
                  | Some validated \<Rightarrow>
                      Inr (map (\<lambda>r. (email r, confidence r)) (verified_emails_data st)
                           @ [(validated, max 0 (min 10 c'))]))
            else Inr (map (\<lambda>r. (email r, confidence r)) (verified_emails_data st)))"
proof (cases "should_verify_smtp (spec_base_confidence p s g m n) s n")
  case True
  obtain r evs where run: "verify_email_with_retries settings (smtp_worlds w e) e = (r, evs)"
    by fastforce
  obtain c'' status msg where
    av: "after_verification (spec_base_confidence p s g m n) r = (c'', status, msg)"
    by (metis prod_cases3)
  have "c'' = c'" using assms(1)[OF True] run av by simp
  then show ?thesis
    using True run av
    by (simp add: score_and_verify_def spec_base_confidence_eq Let_def split: option.splits)
next
  case False
  then show ?thesis
    using assms(2)[OF False]
    by (simp add: score_and_verify_def spec_base_confidence_eq Let_def split: option.splits)
qed

lemma spec_confidence_returned:
  "spec_confidence p s g m n (verdict_of v)
   = max 0 (min 10 (if should_verify_smtp (spec_base_confidence p s g m n) s n
                    then fst (after_verification (spec_base_confidence p s g m n) (Inr v))
                    else spec_base_confidence p s g m n))"
  unfolding spec_confidence_def should_verify_smtp_def after_verification_returned Let_def
  by simp

text \<open>
  When the verification of a candidate returns a verdict, or is not run, the stored
  confidence is the one of the specification's formula.
\<close>

lemma confidence_when_verifier_returns:
  assumes "fst (verify_email_with_retries settings (smtp_worlds w e) e) = Inr v"
  shows "map_sum id (\<lambda>st'. map (\<lambda>r. (email r, confidence r)) (verified_emails_data st'))
           (score_and_verify settings w e s p g m n st)
         = (let c = spec_confidence p s g m n (verdict_of v)
            in if c > 0
               then (case validate_email w e of
                       None \<Rightarrow> Inl (ValidationError e)
                     | Some validated \<Rightarrow>
                         Inr (map (\<lambda>r. (email r, confidence r)) (verified_emails_data st)
                              @ [(validated, c)]))
               else Inr (map (\<lambda>r. (email r, confidence r)) (verified_emails_data st)))"
proof -
  let ?c' = "if should_verify_smtp (spec_base_confidence p s g m n) s n
             then fst (after_verification (spec_base_confidence p s g m n) (Inr v))
             else spec_base_confidence p s g m n"
  have "map_sum id (\<lambda>st'. map (\<lambda>r. (email r, confidence r)) (verified_emails_data st'))
           (score_and_verify settings w e s p g m n st)
         = (if max 0 (min 10 ?c') > 0
            then (case validate_email w e of
                    None \<Rightarrow> Inl (ValidationError e)
                  | Some validated \<Rightarrow>
                      Inr (map (\<lambda>r. (email r, confidence r)) (verified_emails_data st)
                           @ [(validated, max 0 (min 10 ?c'))]))
            else Inr (map (\<lambda>r. (email r, confidence r)) (verified_emails_data st)))"
    by (rule score_and_verify_stores) (simp_all add: assms)
  then show ?thesis
    unfolding spec_confidence_returned[of p s g m n v] Let_def .
qed

text \<open>
  When the verification raises, the handlers of the loop keep the confidence it had
  before the verification.
\<close>

lemma confidence_when_verifier_raises:
  assumes "fst (verify_email_with_retries settings (smtp_worlds w e) e) = Inl ex"
  shows "map_sum id (\<lambda>st'. map (\<lambda>r. (email r, confidence r)) (verified_emails_data st'))
           (score_and_verify settings w e s p g m n st)
         = (let c = max 0 (min 10 (spec_base_confidence p s g m n))
            in if c > 0
               then (case validate_email w e of
                       None \<Rightarrow> Inl (ValidationError e)
                     | Some validated \<Rightarrow>
                         Inr (map (\<lambda>r. (email r, confidence r)) (verified_emails_data st)
                              @ [(validated, c)]))
               else Inr (map (\<lambda>r. (email r, confidence r)) (verified_emails_data st)))"
  unfolding Let_def
  by (rule score_and_verify_stores) (simp_all add: assms after_verification_raised)

section \<open>The candidate loop, ranking and selection\<close>

lemma paced_Assessing_Cons: "paced ys \<Longrightarrow> paced (Assessing e # ys)"
  by (cases ys rule: paced.cases) auto

lemma paced_append: "paced xs \<Longrightarrow> paced ys \<Longrightarrow> paced (xs @ ys)"
  by (induction xs rule: paced.induct) (auto simp: paced_Assessing_Cons)

lemma assess_candidates_data:
  assumes "assess_candidates settings w fl ll domain gp se es st = Inr st'"
    and "\<forall>r \<in> set (verified_emails_data st). 0 < confidence r \<and> confidence r \<le> 10"
  shows "\<forall>r \<in> set (verified_emails_data st'). 0 < confidence r \<and> confidence r \<le> 10"
  using assms
proof (induction es arbitrary: st)
  case Nil
  then show ?case by simp
next
  case (Cons e es)
  from Cons.prems(1) obtain st1 where
    s1: "assess_candidate settings w fl ll domain gp se e st = Inr st1"
    and s2: "assess_candidates settings w fl ll domain gp se es st1 = Inr st'"
    by (auto split: sum.splits)
  from assess_candidate_data[OF s1] Cons.prems(2)
  have "\<forall>r \<in> set (verified_emails_data st1). 0 < confidence r \<and> confidence r \<le> 10"
    by auto
  from Cons.IH[OF s2 this] show ?case .
qed

lemma assess_candidates_trace:
  assumes "assess_candidates settings w fl ll domain gp se es st = Inr st'"
    and "sleep_between_requests settings = (lo, hi)" "lo \<le> hi"
    and "\<forall>k. 0 \<le> sleep_draw w k \<and> sleep_draw w k \<le> 1"
    and "paced (trace st)" "list_all (sleep_within lo hi) (trace st)"
  shows "paced (trace st') \<and> list_all (sleep_within lo hi) (trace st')"
  using assms(1,5,6)
proof (induction es arbitrary: st)
  case Nil
  then show ?case by simp
next
  case (Cons e es)
  from Cons.prems(1) obtain st1 where
    s1: "assess_candidate settings w fl ll domain gp se e st = Inr st1"
    and s2: "assess_candidates settings w fl ll domain gp se es st1 = Inr st'"
    by (auto split: sum.splits)
  have d: "lo \<le> sleep_duration settings (sleep_draw w (sleeps st))
           \<and> sleep_duration settings (sleep_draw w (sleeps st)) \<le> hi"
    using sleep_duration_bounds[OF assms(2,3)] assms(4) by blast
  from assess_candidate_trace[OF s1]
  obtain evs where t: "trace st1 = trace st @ evs" "paced evs" "list_all (sleep_within lo hi) evs"
    using d by (elim disjE exE) (auto intro: exI[of _ "[]"])
  have "paced (trace st1)" "list_all (sleep_within lo hi) (trace st1)"
    using t Cons.prems(2,3) by (simp_all add: paced_append)
  from Cons.IH[OF s2 this] show ?case .
qed

lemma sort_key_of_le_iff: "sort_key_of b \<le> sort_key_of a \<longleftrightarrow> ranked_before a b"
  by (auto simp: sort_key_of_def ranked_before_def less_eq_prod_def le_bool_def)

lemma sort_found_sorted: "sorted_wrt ranked_before (sort_found rs)"
proof -
  have "sorted (map sort_key_of (sort_key sort_key_of (rev rs)))" by (rule sorted_sort_key)
  then have "sorted_wrt (\<lambda>x y. sort_key_of x \<le> sort_key_of y) (sort_key sort_key_of (rev rs))"
    by (simp add: sorted_map)
  then have "sorted_wrt (\<lambda>x y. sort_key_of y \<le> sort_key_of x) (sort_found rs)"
    by (simp add: sort_found_def sorted_wrt_rev)
  then show ?thesis by (simp add: sort_key_of_le_iff)
qed

lemma sort_found_mset: "mset (sort_found rs) = mset rs"
  by (simp add: sort_found_def)

lemma sort_found_set: "set (sort_found rs) = set rs"
  using sort_found_mset[of rs] by (metis set_mset_mset)

lemma select_best_member:
  assumes "select_best settings found = (Some m, sc)"
  shows "\<exists>r \<in> set found. email r = m \<and> confidence r = sc"
  using assms
  by (auto simp: select_best_def find_Some_iff split: option.splits list.splits if_splits
      intro: nth_mem)

lemma sort_found_stable:
  "filter (\<lambda>r. sort_key_of r = k) (sort_found rs) = filter (\<lambda>r. sort_key_of r = k) rs"
proof -
  have "filter (\<lambda>r. sort_key_of r = k) (sort_found rs)
        = rev (filter (\<lambda>r. sort_key_of r = k) (sort_key sort_key_of (rev rs)))"
    by (simp add: sort_found_def rev_filter)
  also have "\<dots> = rev (filter (\<lambda>r. sort_key_of r = k) (rev rs))"
    by (simp only: sort_key_stable)
  also have "\<dots> = filter (\<lambda>r. sort_key_of r = k) rs"
    by (simp add: rev_filter)
  finally show ?thesis .
qed

lemma find_email_unfold:
  assumes "find_email settings w first_name last_name domain url = Inr (res, tr)"
  shows "\<exists>st. assess_all_candidates settings w first_name last_name domain url = Inr st
         \<and> found_emails res = sort_found (verified_emails_data st)
         \<and> (most_likely_email res, confidence_score res) = select_best settings (found_emails res)
         \<and> tr = trace st"
  using assms unfolding find_email_def Let_def
  by (fastforce split: prod.splits sum.splits)

lemma assess_all_candidates_unfold:
  assumes "assess_all_candidates settings w first_name last_name domain url = Inr st"
  shows "\<exists>m0 log1.
           assess_candidates settings w (lower first_name) (lower last_name) domain
             (generate_email_patterns settings first_name last_name domain)
             (fst (scrape_step settings w domain url))
             (combine_candidates (lower first_name) (lower last_name)
                (generate_email_patterns settings first_name last_name domain)
                (fst (scrape_step settings w domain url)))
             \<lparr>verified_emails_data = [], methods = m0, log_entries = log1, trace = [], sleeps = 0\<rparr>
             = Inr st"
proof -
  obtain se log1 where sc: "scrape_step settings w domain url = (se, log1)"
    by (cases "scrape_step settings w domain url") auto
  from assms sc show ?thesis
    unfolding assess_all_candidates_def Let_def
    by (fastforce split: prod.splits)
qed

lemma assess_all_candidates_data:
  assumes "assess_all_candidates settings w first_name last_name domain url = Inr st"
  shows "\<forall>r \<in> set (verified_emails_data st). 0 < confidence r \<and> confidence r \<le> 10"
proof -
  from assess_all_candidates_unfold[OF assms] obtain m0 log1 where
    loop: "assess_candidates settings w (lower first_name) (lower last_name) domain
             (generate_email_patterns settings first_name last_name domain)
             (fst (scrape_step settings w domain url))
             (combine_candidates (lower first_name) (lower last_name)
                (generate_email_patterns settings first_name last_name domain)
                (fst (scrape_step settings w domain url)))
             \<lparr>verified_emails_data = [], methods = m0, log_entries = log1, trace = [], sleeps = 0\<rparr>
             = Inr st"
    by blast
  from assess_candidates_data[OF loop] show ?thesis by simp
qed

text \<open>
  The discovery for Jane Smith at \<open>acme.com\<close> in the example world, evaluated: it
  returns, \<open>j.smith@acme.com\<close> is verified and selected with confidence 10, the other
  patterns are refused by the server and stay inconclusive with confidence 5, the generic
  \<open>info@acme.com\<close> is kept with confidence 1 and no verification, and the last event of
  the run is the assessment of \<open>info@acme.com\<close>.
\<close>

lemma acme_run_value:
  "run_summary (find_email example_settings acme_world ''Jane'' ''Smith'' ''acme.com''
                  ''https://acme.com'')
     = Some ([(''j.smith@acme.com'', 10, False, ''SMTP Verification OK: 250 OK''),
              (''jane-smith@acme.com'', 5, False, ''SMTP Perm Failure? (5xx): 550 No such user''),
              (''jane.s@acme.com'', 5, False, ''SMTP Perm Failure? (5xx): 550 No such user''),
              (''jane.smith@acme.com'', 5, False, ''SMTP Perm Failure? (5xx): 550 No such user''),
              (''jane@acme.com'', 5, False, ''SMTP Perm Failure? (5xx): 550 No such user''),
              (''jane_smith@acme.com'', 5, False, ''SMTP Perm Failure? (5xx): 550 No such user''),
              (''janes@acme.com'', 5, False, ''SMTP Perm Failure? (5xx): 550 No such user''),
              (''janesmi@acme.com'', 5, False, ''SMTP Perm Failure? (5xx): 550 No such user''),
              (''janesmith@acme.com'', 5, False, ''SMTP Perm Failure? (5xx): 550 No such user''),
              (''jansmith@acme.com'', 5, False, ''SMTP Perm Failure? (5xx): 550 No such user''),
              (''jsmith@acme.com'', 5, False, ''SMTP Perm Failure? (5xx): 550 No such user''),
              (''smith-jane@acme.com'', 5, False, ''SMTP Perm Failure? (5xx): 550 No such user''),
              (''smith.jane@acme.com'', 5, False, ''SMTP Perm Failure? (5xx): 550 No such user''),
              (''smith_jane@acme.com'', 5, False, ''SMTP Perm Failure? (5xx): 550 No such user''),
              (''smithjane@acme.com'', 5, False, ''SMTP Perm Failure? (5xx): 550 No such user''),
              (''info@acme.com'', 1, True, ''Verification skipped (low initial confidence)'')],
             Some ''j.smith@acme.com'', 10, Assessing ''info@acme.com'')"
  by code_simp

lemma acme_run_returns:
  "\<exists>res tr. find_email example_settings acme_world ''Jane'' ''Smith'' ''acme.com''
               ''https://acme.com'' = Inr (res, tr)
            \<and> length (found_emails res) = 16
            \<and> most_likely_email res = Some ''j.smith@acme.com''
            \<and> confidence_score res = 10
            \<and> last tr = Assessing ''info@acme.com''"
proof -
  from acme_run_value obtain res tr where
    run: "find_email example_settings acme_world ''Jane'' ''Smith'' ''acme.com''
            ''https://acme.com'' = Inr (res, tr)"
    by (auto simp: run_summary_def split: sum.splits)
  note v = acme_run_value[unfolded run run_summary_def sum.case prod.case option.inject prod.inject]
  from v have "length (found_emails res) = 16"
    by (auto dest: arg_cong[where f = length])
  with v run show ?thesis
    by (intro exI[of _ res] exI[of _ tr]) simp
qed

text \<open>
  A discovery that raises: for J. S at \<open>acme.com\<close> the pattern \<open>j..s@acme.com\<close>
  matches the configured pattern and scores 5, and building its record raises
  \<open>ValidationError\<close>, which no handler of \<open>find_email\<close> catches.
\<close>

lemma find_email_raises_validation_error:
  "isl (find_email example_settings acme_world ''J.'' ''S'' ''acme.com'' ''https://acme.com'')
   \<and> projl (find_email example_settings acme_world ''J.'' ''S'' ''acme.com'' ''https://acme.com'')
       = ValidationError ''j..s@acme.com''"
  by code_simp

section \<open>The confidence of a candidate\<close>

text \<open>
  C2. The formula adds 1 to the confidence of a candidate whose verification ran and
  ended inconclusive without catch-all suspicion. The verification of an address whose
  mail server cannot be resolved is to end so, but \<open>verify_email_with_retries\<close> raises
  \<open>NameError\<close> instead (C1); the handler of the loop notes it as an unexpected error
  and keeps the confidence the candidate had before the verification. In the discovery
  for Jane Smith at \<open>acme.com\<close> when the DNS queries time out, every candidate is a
  pattern with the name in its local part at the primary domain: each is stored with
  confidence 4, where the formula gives 5.
\<close>

theorem dns_failure_leaves_confidence_unadjusted:
  "found_scores (find_email example_settings unresolved_world ''Jane'' ''Smith'' ''acme.com''
                   ''https://acme.com'')
     = Some ([(''j.smith@acme.com'', 4, None), (''jane-smith@acme.com'', 4, None),
              (''jane.s@acme.com'', 4, None), (''jane.smith@acme.com'', 4, None),
              (''jane@acme.com'', 4, None), (''jane_smith@acme.com'', 4, None),
              (''janes@acme.com'', 4, None), (''janesmi@acme.com'', 4, None),
              (''janesmith@acme.com'', 4, None), (''jansmith@acme.com'', 4, None),
              (''jsmith@acme.com'', 4, None), (''smith-jane@acme.com'', 4, None),
              (''smith.jane@acme.com'', 4, None), (''smith_jane@acme.com'', 4, None),
              (''smithjane@acme.com'', 4, None)],
             [''Unexpected SMTP Error: name '' @ [CHR 0x27] @ ''DnsError'' @ [CHR 0x27]
              @ '' is not defined''])
   \<and> spec_confidence True False False True True (Inconclusive False) = 5"
  by code_simp

section \<open>Ranking and selection\<close>

text \<open>
  C3. In every result of \<open>find_email\<close>, the found records are the records the
  candidate loop kept, each as often as the loop kept it; they have positive confidence
  and are in the order (confidence descending, non-generic before generic, scraped before
  pattern), records that are equal in all three staying in the order of the loop. The
  selection is the first non-generic record whose confidence reaches
  \<open>confidence_threshold\<close> if there is one; otherwise the first record, if its
  confidence reaches \<open>confidence_threshold\<close> and it is non-generic or its confidence
  reaches \<open>generic_confidence_threshold\<close>; otherwise nothing is selected and the score
  is 0.
\<close>

theorem ranking_and_selection:
  assumes "find_email settings w first_name last_name domain url = Inr (res, tr)"
  shows "\<exists>st. assess_all_candidates settings w first_name last_name domain url = Inr st
       \<and> mset (found_emails res) = mset (verified_emails_data st)
       \<and> (\<forall>k. filter (\<lambda>r. sort_key_of r = k) (found_emails res)
                = filter (\<lambda>r. sort_key_of r = k) (verified_emails_data st))
       \<and> sorted_wrt ranked_before (found_emails res)
       \<and> (\<forall>r \<in> set (found_emails res). 0 < confidence r)
       \<and> (case find (\<lambda>r. \<not> is_generic r \<and> confidence_threshold settings \<le> confidence r)
                  (found_emails res) of
            Some best_non_generic \<Rightarrow>
              most_likely_email res = Some (email best_non_generic)
              \<and> confidence_score res = confidence best_non_generic
          | None \<Rightarrow>
              (case found_emails res of
                 [] \<Rightarrow> most_likely_email res = None \<and> confidence_score res = 0
               | top_candidate # _ \<Rightarrow>
                   if confidence_threshold settings \<le> confidence top_candidate
                      \<and> (\<not> is_generic top_candidate \<or> generic_confidence_threshold settings \<le> confidence top_candidate)
                   then most_likely_email res = Some (email top_candidate)
                        \<and> confidence_score res = confidence top_candidate
                   else most_likely_email res = None \<and> confidence_score res = 0))"
proof -
  from find_email_unfold[OF assms] obtain st where
    loop: "assess_all_candidates settings w first_name last_name domain url = Inr st"
    and found: "found_emails res = sort_found (verified_emails_data st)"
    and sel: "(most_likely_email res, confidence_score res) = select_best settings (found_emails res)"
    by blast
  have m: "mset (found_emails res) = mset (verified_emails_data st)"
    by (simp add: found sort_found_mset)
  have s: "\<forall>k. filter (\<lambda>r. sort_key_of r = k) (found_emails res)
                = filter (\<lambda>r. sort_key_of r = k) (verified_emails_data st)"
    by (simp add: found sort_found_stable)
  have a: "sorted_wrt ranked_before (found_emails res)"
    by (simp add: found sort_found_sorted)
  have b: "\<forall>r \<in> set (found_emails res). 0 < confidence r"
    using assess_all_candidates_data[OF loop] by (simp add: found sort_found_set)
  have c: "(case find (\<lambda>r. \<not> is_generic r \<and> confidence_threshold settings \<le> confidence r)
                  (found_emails res) of
            Some best_non_generic \<Rightarrow>
              most_likely_email res = Some (email best_non_generic)
              \<and> confidence_score res = confidence best_non_generic
          | None \<Rightarrow>
              (case found_emails res of
                 [] \<Rightarrow> most_likely_email res = None \<and> confidence_score res = 0
               | top_candidate # _ \<Rightarrow>
                   if confidence_threshold settings \<le> confidence top_candidate
                      \<and> (\<not> is_generic top_candidate \<or> generic_confidence_threshold settings \<le> confidence top_candidate)
                   then most_likely_email res = Some (email top_candidate)
                        \<and> confidence_score res = confidence top_candidate
                   else most_likely_email res = None \<and> confidence_score res = 0))"
    using sel by (auto simp: select_best_def split: option.splits list.splits if_splits)
  from loop m s a b c show ?thesis by blast
qed

theorem ranking_and_selection_witness:
  "\<exists>res tr st. find_email example_settings acme_world ''Jane'' ''Smith'' ''acme.com''
                  ''https://acme.com'' = Inr (res, tr)
               \<and> assess_all_candidates example_settings acme_world ''Jane'' ''Smith'' ''acme.com''
                     ''https://acme.com'' = Inr st
               \<and> mset (found_emails res) = mset (verified_emails_data st)
               \<and> sorted_wrt ranked_before (found_emails res)
               \<and> length (found_emails res) = 16
               \<and> most_likely_email res = Some ''j.smith@acme.com''
               \<and> confidence_score res = 10"
proof -
  from acme_run_returns obtain res tr where
    run: "find_email example_settings acme_world ''Jane'' ''Smith'' ''acme.com''
            ''https://acme.com'' = Inr (res, tr)"
    and len: "length (found_emails res) = 16"
    and sel: "most_likely_email res = Some ''j.smith@acme.com''" "confidence_score res = 10"
    by blast
  from ranking_and_selection[OF run] obtain st where
    "assess_all_candidates example_settings acme_world ''Jane'' ''Smith'' ''acme.com''
       ''https://acme.com'' = Inr st"
    "mset (found_emails res) = mset (verified_emails_data st)"
    "sorted_wrt ranked_before (found_emails res)"
    by blast
  with run len sel show ?thesis
    by (intro exI[of _ res] exI[of _ tr] exI[of _ st]) simp
qed

section \<open>Invariants of the result\<close>

text \<open>
  C5. The assembled candidate list has no two entries that are equal when compared
  without regard to case; in every result of \<open>find_email\<close> each found record has a
  confidence between 0 and 10, and a selected address is the address of a found record.
\<close>

theorem result_invariants:
  "distinct (map lower (combine_candidates fl ll gp se))
   \<and> (find_email settings w first_name last_name domain url = Inr (res, tr) \<longrightarrow>
        (\<forall>r \<in> set (found_emails res). 0 \<le> confidence r \<and> confidence r \<le> 10)
        \<and> (\<forall>m. most_likely_email res = Some m \<longrightarrow> m \<in> email ` set (found_emails res)))"
proof (intro conjI impI)
  show "distinct (map lower (combine_candidates fl ll gp se))"
    by (rule combine_candidates_distinct_lower)
next
  assume run: "find_email settings w first_name last_name domain url = Inr (res, tr)"
  from find_email_unfold[OF run] obtain st where
    loop: "assess_all_candidates settings w first_name last_name domain url = Inr st"
    and found: "found_emails res = sort_found (verified_emails_data st)"
    and sel: "(most_likely_email res, confidence_score res) = select_best settings (found_emails res)"
    by blast
  have "\<forall>r \<in> set (verified_emails_data st). 0 < confidence r \<and> confidence r \<le> 10"
    by (rule assess_all_candidates_data[OF loop])
  then show "\<forall>r \<in> set (found_emails res). 0 \<le> confidence r \<and> confidence r \<le> 10"
    by (auto simp: found sort_found_set)
  show "\<forall>m. most_likely_email res = Some m \<longrightarrow> m \<in> email ` set (found_emails res)"
  proof (intro allI impI)
    fix m assume "most_likely_email res = Some m"
    with sel have "select_best settings (found_emails res) = (Some m, confidence_score res)"
      by simp
    from select_best_member[OF this] show "m \<in> email ` set (found_emails res)" by auto
  qed
qed

theorem result_invariants_witness:
  "distinct (map lower (combine_candidates ''jane'' ''smith'' [''jane@acme.com'']
                          [''Jane@acme.com'', ''info@acme.com'']))
   \<and> (\<exists>res tr. find_email example_settings acme_world ''Jane'' ''Smith'' ''acme.com''
                  ''https://acme.com'' = Inr (res, tr)
               \<and> list_all (\<lambda>r. 0 \<le> confidence r \<and> confidence r \<le> 10) (found_emails res)
               \<and> most_likely_email res = Some ''j.smith@acme.com''
               \<and> ''j.smith@acme.com'' \<in> email ` set (found_emails res))"
proof -
  from acme_run_returns obtain res tr where
    run: "find_email example_settings acme_world ''Jane'' ''Smith'' ''acme.com''
            ''https://acme.com'' = Inr (res, tr)"
    and sel: "most_likely_email res = Some ''j.smith@acme.com''"
    by blast
  note inv = result_invariants[of "''jane''" "''smith''" "[''jane@acme.com'']"
      "[''Jane@acme.com'', ''info@acme.com'']" example_settings acme_world "''Jane''" "''Smith''"
      "''acme.com''" "''https://acme.com''" res tr]
  from inv have a: "distinct (map lower (combine_candidates ''jane'' ''smith'' [''jane@acme.com'']
                          [''Jane@acme.com'', ''info@acme.com'']))"
    by blast
  from inv run have b: "list_all (\<lambda>r. 0 \<le> confidence r \<and> confidence r \<le> 10) (found_emails res)"
    by (simp add: list_all_iff)
  from inv run sel have c: "''j.smith@acme.com'' \<in> email ` set (found_emails res)"
    by blast
  from a b c run sel show ?thesis by blast
qed

section \<open>Sleeping between candidates\<close>

text \<open>
  C8 says the orchestrator sleeps after every candidate, whether its verification was
  performed or skipped. The code sleeps only \<open>if should_verify_smtp\<close>: in every run of
  \<open>find_email\<close> each SMTP verification is followed directly by one sleep, and there is
  no other sleep, so a candidate whose verification is skipped is followed by none. When
  \<open>sleep_between_requests\<close> is \<open>(lo, hi)\<close> with \<open>lo \<le> hi\<close>, and \<open>random()\<close> yields
  values in 0..1, every sleep lasts between \<open>lo\<close> and \<open>hi\<close>.
\<close>

theorem sleep_follows_performed_verification:
  assumes "find_email settings w first_name last_name domain url = Inr (res, tr)"
    and "sleep_between_requests settings = (lo, hi)" "lo \<le> hi"
    and "\<forall>k. 0 \<le> sleep_draw w k \<and> sleep_draw w k \<le> 1"
  shows "paced tr \<and> list_all (sleep_within lo hi) tr"
proof -
  from find_email_unfold[OF assms(1)] obtain st where
    "assess_all_candidates settings w first_name last_name domain url = Inr st"
    and tr: "tr = trace st"
    by blast
  from assess_all_candidates_unfold[OF this(1)] obtain m0 log1 where
    loop: "assess_candidates settings w (lower first_name) (lower last_name) domain
             (generate_email_patterns settings first_name last_name domain)
             (fst (scrape_step settings w domain url))
             (combine_candidates (lower first_name) (lower last_name)
                (generate_email_patterns settings first_name last_name domain)
                (fst (scrape_step settings w domain url)))
             \<lparr>verified_emails_data = [], methods = m0, log_entries = log1, trace = [], sleeps = 0\<rparr>
             = Inr st"
    by blast
  from assess_candidates_trace[OF loop assms(2,3,4)] tr show ?thesis by simp
qed

text \<open>
  Against C8 as stated: in the example run the verification of \<open>info@acme.com\<close> is
  skipped, and its assessment is the last event of the run: no sleep follows it.
\<close>

theorem no_sleep_after_skipped_verification:
  "run_summary (find_email example_settings acme_world ''Jane'' ''Smith'' ''acme.com''
                  ''https://acme.com'')
     = Some ([(''j.smith@acme.com'', 10, False, ''SMTP Verification OK: 250 OK''),
              (''jane-smith@acme.com'', 5, False, ''SMTP Perm Failure? (5xx): 550 No such user''),
              (''jane.s@acme.com'', 5, False, ''SMTP Perm Failure? (5xx): 550 No such user''),
              (''jane.smith@acme.com'', 5, False, ''SMTP Perm Failure? (5xx): 550 No such user''),
              (''jane@acme.com'', 5, False, ''SMTP Perm Failure? (5xx): 550 No such user''),
              (''jane_smith@acme.com'', 5, False, ''SMTP Perm Failure? (5xx): 550 No such user''),
              (''janes@acme.com'', 5, False, ''SMTP Perm Failure? (5xx): 550 No such user''),
              (''janesmi@acme.com'', 5, False, ''SMTP Perm Failure? (5xx): 550 No such user''),
              (''janesmith@acme.com'', 5, False, ''SMTP Perm Failure? (5xx): 550 No such user''),
              (''jansmith@acme.com'', 5, False, ''SMTP Perm Failure? (5xx): 550 No such user''),
              (''jsmith@acme.com'', 5, False, ''SMTP Perm Failure? (5xx): 550 No such user''),
              (''smith-jane@acme.com'', 5, False, ''SMTP Perm Failure? (5xx): 550 No such user''),
              (''smith.jane@acme.com'', 5, False, ''SMTP Perm Failure? (5xx): 550 No such user''),
              (''smith_jane@acme.com'', 5, False, ''SMTP Perm Failure? (5xx): 550 No such user''),
              (''smithjane@acme.com'', 5, False, ''SMTP Perm Failure? (5xx): 550 No such user''),
              (''info@acme.com'', 1, True, ''Verification skipped (low initial confidence)'')],
             Some ''j.smith@acme.com'', 10, Assessing ''info@acme.com'')"
  by (rule acme_run_value)

theorem sleep_follows_performed_verification_witness:
  "\<exists>res tr. find_email example_settings acme_world ''Jane'' ''Smith'' ''acme.com''
               ''https://acme.com'' = Inr (res, tr)
            \<and> paced tr \<and> list_all (sleep_within (1 / 10) (1 / 2)) tr"
proof -
  from acme_run_returns obtain res tr where
    run: "find_email example_settings acme_world ''Jane'' ''Smith'' ''acme.com''
            ''https://acme.com'' = Inr (res, tr)"
    by blast
  have s: "sleep_between_requests example_settings = (1 / 10, 1 / 2)"
    by (simp add: example_settings_def)
  have o: "(1 / 10 :: rat) \<le> 1 / 2"
    by simp
  have d: "\<forall>k. 0 \<le> sleep_draw acme_world k \<and> sleep_draw acme_world k \<le> 1"
    by (simp add: acme_world_def)
  from sleep_follows_performed_verification[OF run s o d] run show ?thesis by blast
qed

section \<open>Extracting the domain\<close>

lemma domain_of_host_no_colon: "CHR '':'' \<notin> set (domain_of_host h)"
proof -
  have a: "CHR '':'' \<notin> set (takeWhile (\<lambda>x. x \<noteq> CHR '':'') h)"
    by (auto dest: set_takeWhileD)
  have b: "set (removeprefix p s) \<subseteq> set s" for p s :: string
    by (auto simp: removeprefix_def dest: in_set_dropD)
  show ?thesis
    unfolding domain_of_host_def Let_def colon_in_lower split_first_def
    using a b by (auto split: if_splits)
qed

text \<open>
  C9 says the domain \<open>extract_domain\<close> returns never begins with \<open>www.\<close>. The function
  removes one prefix \<open>www.\<close>, as written, and lowers the result afterwards. What holds:
  a returned domain is the host authority (\<open>netloc\<close>, or \<open>hostname\<close> when that is
  empty) cut at its first colon, with one prefix \<open>www.\<close> removed, in lower case; it is
  not empty, has no colon and no upper-case letter. \<open>DomainExtractionError\<close> is raised
  exactly when the input is empty, the parser raises, no host is found, or the domain
  so computed is empty; nothing else is raised.
\<close>

theorem extract_domain_result:
  "(\<forall>d. extract_domain urlparse u = Inr d \<longrightarrow>
        d \<noteq> [] \<and> CHR '':'' \<notin> set d \<and> lower d = d
        \<and> (\<exists>p h. urlparse (with_scheme u) = Inr p \<and> host_of p = Some h
                 \<and> d = lower (removeprefix ''www.'' (takeWhile (\<lambda>c. c \<noteq> CHR '':'') h))))
   \<and> ((\<exists>m. extract_domain urlparse u = Inl (DomainExtractionError m)) \<longleftrightarrow>
        (u = [] \<or> isl (urlparse (with_scheme u))
         \<or> (\<exists>p. urlparse (with_scheme u) = Inr p
                \<and> (host_of p = None \<or> (\<exists>h. host_of p = Some h \<and> domain_of_host h = [])))))
   \<and> (\<forall>ex. extract_domain urlparse u = Inl ex \<longrightarrow> (\<exists>m. ex = DomainExtractionError m))"
proof (intro conjI allI impI)
  fix d assume r: "extract_domain urlparse u = Inr d"
  then obtain p h where p: "urlparse (with_scheme u) = Inr p" "host_of p = Some h"
    "d = domain_of_host h" "d \<noteq> []"
    by (auto simp: extract_domain_def Let_def split: if_splits sum.splits option.splits)
  have eq: "domain_of_host h = lower (removeprefix ''www.'' (takeWhile (\<lambda>c. c \<noteq> CHR '':'') h))"
  proof (cases "CHR '':'' \<in> set h")
    case True
    then show ?thesis by (simp add: domain_of_host_def Let_def split_first_def)
  next
    case False
    then have tw: "takeWhile (\<lambda>c. c \<noteq> CHR '':'') h = h"
      by (auto simp: takeWhile_eq_all_conv)
    show ?thesis using False by (simp add: domain_of_host_def Let_def tw)
  qed
  show "d \<noteq> []" by fact
  show "CHR '':'' \<notin> set d" using p(3) domain_of_host_no_colon by simp
  show "lower d = d" using p(3) by (simp add: domain_of_host_def Let_def lower_idem)
  show "\<exists>p h. urlparse (with_scheme u) = Inr p \<and> host_of p = Some h
                 \<and> d = lower (removeprefix ''www.'' (takeWhile (\<lambda>c. c \<noteq> CHR '':'') h))"
    using p eq by auto
next
  show "(\<exists>m. extract_domain urlparse u = Inl (DomainExtractionError m)) \<longleftrightarrow>
        (u = [] \<or> isl (urlparse (with_scheme u))
         \<or> (\<exists>p. urlparse (with_scheme u) = Inr p
                \<and> (host_of p = None \<or> (\<exists>h. host_of p = Some h \<and> domain_of_host h = []))))"
    by (cases "urlparse (with_scheme u)")
       (auto simp: extract_domain_def Let_def split: if_splits sum.splits option.splits)
next
  fix ex assume "extract_domain urlparse u = Inl ex"
  then show "\<exists>m. ex = DomainExtractionError m"
    by (auto simp: extract_domain_def Let_def split: if_splits sum.splits option.splits)
qed

text \<open>Against C9 as stated: a host that carries the prefix twice keeps one.\<close>

theorem extract_domain_keeps_second_www:
  "extract_domain urlparse_http ''www.www.example.com'' = Inr ''www.example.com''"
  by code_simp

theorem extract_domain_result_witness:
  "extract_domain urlparse_http ''https://www.Example.com:8080/path?x=1'' = Inr ''example.com''
   \<and> CHR '':'' \<notin> set ''example.com''
   \<and> (\<exists>p h. urlparse_http (with_scheme ''https://www.Example.com:8080/path?x=1'') = Inr p
             \<and> host_of p = Some h
             \<and> ''example.com'' = lower (removeprefix ''www.'' (takeWhile (\<lambda>c. c \<noteq> CHR '':'') h)))"
proof -
  have r: "extract_domain urlparse_http ''https://www.Example.com:8080/path?x=1'' = Inr ''example.com''"
    by code_simp
  from extract_domain_result[of urlparse_http "''https://www.Example.com:8080/path?x=1''"] r
  show ?thesis by blast
qed

end
